theory Spec2Isabelle
  imports Main
begin

section \<open>The action execution scheduling queue handler\<close>

text \<open>
  A shallow embedding of \<^verbatim>\<open>st2actions/scheduler/handler.py\<close>: the class
  \<^verbatim>\<open>ActionExecutionSchedulingQueueHandler\<close> with its claim loop (\<^verbatim>\<open>run\<close>,
  \<^verbatim>\<open>_get_next_execution\<close>), its dispatch worker (\<^verbatim>\<open>_handle_execution\<close>,
  \<^verbatim>\<open>_apply_pre_run\<close>, \<^verbatim>\<open>_is_execution_queue_item_runnable\<close>,
  \<^verbatim>\<open>_update_to_scheduled\<close>) and its garbage collector
  (\<^verbatim>\<open>_handle_garbage_collection\<close>).

  Conventions of the embedding:
  \<^item> Python methods whose names start with an underscore lose it (an Isabelle name starts
    with a letter).
  \<^item> Instants are milliseconds since the epoch, an unbounded \<open>int\<close>.
  \<^item> The two persistent collections and every call the handler makes to a collaborator
    (status update, status publish, queue delete, worker spawn, log line) are fields of an
    explicit \<open>world\<close>; the calls are appended to its \<open>trace\<close> in program order.
  \<^item> Exceptions are values: a lookup returns \<open>lookup_error + liveaction\<close>, a queue write
    returns \<open>write_error + \<dots>\<close>.
  \<^item> The Python test \<^verbatim>\<open>status is LIVEACTION_STATUS_POLICY_DELAYED\<close> compares object
    identity, the tests \<^verbatim>\<open>status in [...]\<close> compare by equality. A live action in hand
    therefore records, beside the value of its status, whether the attribute holds the
    string object of the constants module itself (\<open>status_is_constant\<close>).
\<close>

subsection \<open>Data model\<close>

text \<open>
  The status vocabulary of a live action. The constants module is not part of the sources
  at hand; the constructors carry the names the handler uses
  (\<^verbatim>\<open>action_constants.LIVEACTION_STATUS_*\<close>), the vocabulary is the one of the
  specification, and any further status is \<open>LIVEACTION_STATUS_OTHER\<close> with its name.
\<close>

datatype liveaction_status =
    LIVEACTION_STATUS_REQUESTED
  | LIVEACTION_STATUS_SCHEDULED
  | LIVEACTION_STATUS_DELAYED
  | LIVEACTION_STATUS_POLICY_DELAYED
  | LIVEACTION_STATUS_CANCELING
  | LIVEACTION_STATUS_CANCELED
  | LIVEACTION_STATUS_SUCCEEDED
  | LIVEACTION_STATUS_FAILED
  | LIVEACTION_STATUS_TIMED_OUT
  | LIVEACTION_STATUS_ABANDONED
  | LIVEACTION_STATUS_EXPIRED
  | LIVEACTION_STATUS_OTHER string

text \<open>
  The two status sets the handler reads from the constants module,
  \<^verbatim>\<open>LIVEACTION_COMPLETED_STATES\<close> and \<^verbatim>\<open>LIVEACTION_CANCEL_STATES\<close>. Their
  contents are not in the sources at hand, so they are a parameter of every function that
  reads them.
\<close>

record action_constants =
  LIVEACTION_COMPLETED_STATES :: "liveaction_status list"
  LIVEACTION_CANCEL_STATES :: "liveaction_status list"

text \<open>
  A live action as the collection stores it, and as a Python object in the hands of the
  handler. The object has one more piece of state than the document: the string object
  its \<^verbatim>\<open>status\<close> attribute refers to. \<open>status_is_constant\<close> is true when that is the very
  object the constants module binds to the name of the status (it was assigned from the
  constant in this process), and false when it is another string with the same
  characters (it was decoded from the database).
\<close>

record liveaction_document =
  liveaction_ident :: nat
  status :: liveaction_status

record liveaction = liveaction_document +
  status_is_constant :: bool

text \<open>
  A queue item. \<open>item_id\<close> is the document id, \<open>revision\<close> the revision token of the optimistic
  concurrency control. The passthrough fields are carried along untouched.
\<close>

record queue_item =
  item_id :: nat
  revision :: nat
  liveaction_id :: nat
  scheduled_start_timestamp :: int
  handling :: bool
  original_start_timestamp :: int
  action_execution_id :: nat
  delay :: "int option"

datatype lookup_error = StackStormDBObjectNotFoundError

datatype write_error = StackStormDBObjectWriteConflictError

text \<open>The log lines of the handler, one constructor per call of \<^verbatim>\<open>LOG\<close>.\<close>

datatype log_line =
    DEBUG_entering_scheduler_loop
  | INFO_removing_lock_for_orphaned_item nat
  | INFO_item_updated_before_rescheduling nat
  | INFO_item_handled_by_another_scheduler nat
  | INFO_scheduling_liveaction nat nat
  | EXCEPTION_failed_to_find_liveaction nat nat
  | INFO_status_pre_run nat liveaction_status nat
  | WARNING_update_conflict_during_scheduling nat
  | INFO_ignoring_after_policies nat liveaction_status
  | INFO_status_update_to_scheduled_1 nat liveaction_status nat
  | INFO_status_update_to_scheduled_2 nat liveaction_status nat
  | DEBUG_starting_scheduler_garbage_collection

text \<open>
  What the handler does to its collaborators, in program order.
  \<open>UpdateStatus l s p\<close> is \<^verbatim>\<open>action_service.update_status(l, s, publish=p)\<close>,
  \<open>PublishStatus l\<close> is \<^verbatim>\<open>LiveAction.publish_status(l)\<close> (or the notification of an update
  with \<^verbatim>\<open>publish=True\<close>), \<open>QueueWrite i\<close> a successful
  \<^verbatim>\<open>ActionExecutionSchedulingQueue.add_or_update\<close> that stored \<open>i\<close>, \<open>QueuePublish i\<close> its
  notification when called with \<^verbatim>\<open>publish=True\<close>, \<open>QueueDelete i\<close> is
  \<^verbatim>\<open>ActionExecutionSchedulingQueue.delete(i)\<close>, \<open>Spawn i\<close> is
  \<^verbatim>\<open>self._pool.spawn(self._handle_execution, i)\<close>.
\<close>

datatype event =
    is_UpdateStatus: UpdateStatus liveaction liveaction_status bool
  | is_PublishStatus: PublishStatus liveaction
  | is_QueueWrite: QueueWrite queue_item
  | is_QueuePublish: QueuePublish queue_item
  | is_QueueDelete: QueueDelete queue_item
  | is_Spawn: Spawn queue_item
  | is_LOG: LOG log_line

record world =
  queue :: "queue_item list"
  liveactions :: "liveaction_document list"
  trace :: "event list"

definition emit :: "event \<Rightarrow> world \<Rightarrow> world" where
  "emit e w = w\<lparr>trace := trace w @ [e]\<rparr>"

subsection \<open>Collaborators\<close>

text \<open>
  Modelled from the spec: \<^verbatim>\<open>date.append_milliseconds_to_time\<close> (the clock's
  \<^verbatim>\<open>Shift(Instant, ms)\<close>), missing from the sources at hand. It adds a signed number of
  milliseconds to an instant.
\<close>

definition append_milliseconds_to_time :: "int \<Rightarrow> int \<Rightarrow> int" where
  "append_milliseconds_to_time t ms = t + ms"

text \<open>
  Modelled from the spec: the persistence layer \<^verbatim>\<open>ActionExecutionSchedulingQueue\<close>
  (\<^verbatim>\<open>query\<close>, \<^verbatim>\<open>first\<close>, \<^verbatim>\<open>add_or_update\<close>, \<^verbatim>\<open>delete\<close>), missing from the
  sources at hand. The collection is the list of its items in insertion order.

  \<open>query\<close> keeps the items that satisfy both keyword filters the handler uses,
  \<^verbatim>\<open>scheduled_start_timestamp__lte\<close> and \<^verbatim>\<open>handling\<close>;
  \<open>order_by_scheduled_start_timestamp\<close> is \<^verbatim>\<open>order_by=['+scheduled_start_timestamp']\<close>, a
  stable ascending sort (ties keep insertion order); \<open>limit\<close> keeps a prefix; \<open>first\<close> is the
  first item of a result, or none.
\<close>

definition query :: "int \<Rightarrow> bool \<Rightarrow> queue_item list \<Rightarrow> queue_item list" where
  "query scheduled_start_timestamp__lte handling_eq q =
     filter (\<lambda>i. scheduled_start_timestamp i \<le> scheduled_start_timestamp__lte
                 \<and> handling i = handling_eq) q"

definition order_by_scheduled_start_timestamp :: "queue_item list \<Rightarrow> queue_item list" where
  "order_by_scheduled_start_timestamp q = sort_key scheduled_start_timestamp q"

definition limit :: "nat \<Rightarrow> queue_item list \<Rightarrow> queue_item list" where
  "limit n q = take n q"

definition first :: "queue_item list \<Rightarrow> queue_item option" where
  "first q = (case q of [] \<Rightarrow> None | i # _ \<Rightarrow> Some i)"

text \<open>
  \<open>add_or_update\<close> is a compare-and-swap on the revision token: the write goes through when
  the stored item of that id carries the token of the item in hand, the stored item becomes
  the item in hand with the token advanced, and the item in hand carries the advanced token
  afterwards. A stale token, also the token of an item that is no longer stored, is a
  \<open>StackStormDBObjectWriteConflictError\<close> and leaves the collection as it is. With
  \<^verbatim>\<open>publish=False\<close> nothing is notified.
\<close>

definition stored :: "nat \<Rightarrow> queue_item list \<Rightarrow> queue_item option" where
  "stored i q = find (\<lambda>x. item_id x = i) q"

definition add_or_update ::
  "queue_item \<Rightarrow> bool \<Rightarrow> world \<Rightarrow> write_error + (queue_item \<times> world)" where
  "add_or_update item publish w =
     (case stored (item_id item) (queue w) of
        None \<Rightarrow> Inl StackStormDBObjectWriteConflictError
      | Some s \<Rightarrow>
          if revision s = revision item then
            (let item' = item\<lparr>revision := revision item + 1\<rparr>;
                 w' = emit (QueueWrite item')
                        (w\<lparr>queue := map (\<lambda>x. if item_id x = item_id item then item' else x)
                                        (queue w)\<rparr>)
             in Inr (item', if publish then emit (QueuePublish item') w' else w'))
          else Inl StackStormDBObjectWriteConflictError)"

definition delete :: "queue_item \<Rightarrow> world \<Rightarrow> world" where
  "delete item w =
     emit (QueueDelete item)
       (w\<lparr>queue := filter (\<lambda>x. item_id x \<noteq> item_id item) (queue w)\<rparr>)"

text \<open>
  Modelled from the spec: \<^verbatim>\<open>action_utils.get_liveaction_by_id\<close>,
  \<^verbatim>\<open>action_service.update_status\<close> and \<^verbatim>\<open>LiveAction.publish_status\<close>, missing from the
  sources at hand. The lookup fails with \<open>StackStormDBObjectNotFoundError\<close> when no live
  action has the id; the object it returns is decoded from the stored document, so its
  status is a string of its own and not the object of the constants module. The update
  assigns the status it is given to the object in hand (the handler passes constants of
  the constants module, so the attribute holds that very object afterwards), stores the
  document, and notifies subscribers only when \<^verbatim>\<open>publish\<close> is true. The publish notifies
  subscribers of the object in hand.
\<close>

definition get_liveaction_by_id :: "nat \<Rightarrow> world \<Rightarrow> lookup_error + liveaction" where
  "get_liveaction_by_id i w =
     (case find (\<lambda>l. liveaction_ident l = i) (liveactions w) of
        None \<Rightarrow> Inl StackStormDBObjectNotFoundError
      | Some l \<Rightarrow>
          Inr \<lparr>liveaction_ident = liveaction_ident l, status = status l,
               status_is_constant = False\<rparr>)"

definition publish_status :: "liveaction \<Rightarrow> world \<Rightarrow> world" where
  "publish_status l w = emit (PublishStatus l) w"

definition update_status ::
  "liveaction \<Rightarrow> liveaction_status \<Rightarrow> bool \<Rightarrow> world \<Rightarrow> liveaction \<times> world" where
  "update_status l new_status publish w =
     (let l' = l\<lparr>status := new_status, status_is_constant := True\<rparr>;
          w' = emit (UpdateStatus l new_status publish)
                 (w\<lparr>liveactions :=
                      map (\<lambda>x. if liveaction_ident x = liveaction_ident l
                                then \<lparr>liveaction_ident = liveaction_ident l,
                                      status = new_status\<rparr>
                                else x)
                          (liveactions w)\<rparr>)
      in (l', if publish then publish_status l' w' else w'))"

subsection \<open>Constants of the handler\<close>

definition EXECUTION_SCHEDUELING_TIMEOUT_THRESHOLD_MS :: int where
  "EXECUTION_SCHEDUELING_TIMEOUT_THRESHOLD_MS = 60 * 1000"

definition POLICY_DELAYED_EXECUTION_RESCHEDULE_TIME_MS :: int where
  "POLICY_DELAYED_EXECUTION_RESCHEDULE_TIME_MS = 1500"

text \<open>
  Modelled from the spec: \<^verbatim>\<open>policy_service.apply_pre_run_policies\<close>, missing from the
  sources at hand. A policy service takes the live action in hand and the live-action
  collection and returns both, possibly with another status; it is a parameter of the
  dispatch worker.
\<close>

type_synonym policy_service =
  "liveaction \<Rightarrow> liveaction_document list \<Rightarrow> liveaction \<times> liveaction_document list"

text \<open>
  Other scheduler processes work on the same queue collection. What they do to it between
  a read and the write that follows it (the handler yields at every store call) is a
  parameter \<open>others\<close> of the two functions that read and then write.
\<close>

type_synonym interference = "queue_item list \<Rightarrow> queue_item list"

text \<open>
  The calls by which any party changes the queue collection, and a run of such calls in
  order; a write that conflicts changes nothing.
\<close>

datatype store_call = AddOrUpdate queue_item bool | Delete queue_item

fun store_calls :: "store_call list \<Rightarrow> world \<Rightarrow> world" where
  "store_calls [] w = w"
| "store_calls (AddOrUpdate item publish # cs) w =
     (case add_or_update item publish w of
        Inr (item', w') \<Rightarrow> store_calls cs w'
      | Inl StackStormDBObjectWriteConflictError \<Rightarrow> store_calls cs w)"
| "store_calls (Delete item # cs) w = store_calls cs (delete item w)"

subsection \<open>The garbage collector\<close>

fun gc_loop :: "queue_item list \<Rightarrow> world \<Rightarrow> world" where
  "gc_loop [] w = w"
| "gc_loop (execution_queue_item_db # rest) w =
     (let item = execution_queue_item_db\<lparr>handling := False\<rparr>
      in case add_or_update item False w of
           Inr (item', w') \<Rightarrow>
             gc_loop rest (emit (LOG (INFO_removing_lock_for_orphaned_item (item_id item'))) w')
         | Inl StackStormDBObjectWriteConflictError \<Rightarrow>
             gc_loop rest (emit (LOG (INFO_item_updated_before_rescheduling (item_id item))) w))"

definition handle_garbage_collection :: "int \<Rightarrow> interference \<Rightarrow> world \<Rightarrow> world" where
  "handle_garbage_collection now others w =
     (let execution_queue_item_dbs =
            query (append_milliseconds_to_time now (- EXECUTION_SCHEDUELING_TIMEOUT_THRESHOLD_MS))
                  True (queue w)
      in gc_loop execution_queue_item_dbs (w\<lparr>queue := others (queue w)\<rparr>))"

fun cleanup_loop :: "(int \<times> interference) list \<Rightarrow> world \<Rightarrow> world" where
  "cleanup_loop [] w = w"
| "cleanup_loop ((now, others) # ticks) w =
     cleanup_loop ticks (handle_garbage_collection now others w)"

text \<open>
  \<^verbatim>\<open>cleanup\<close> runs until \<^verbatim>\<open>_shutdown\<close> is set by another thread; the ticks it gets
  to run before that are the list \<open>ticks\<close>, each with its clock reading.
\<close>

definition cleanup :: "(int \<times> interference) list \<Rightarrow> world \<Rightarrow> world" where
  "cleanup ticks w = cleanup_loop ticks (emit (LOG DEBUG_starting_scheduler_garbage_collection) w)"

subsection \<open>The claim loop\<close>

text \<open>
  The query of \<^verbatim>\<open>_get_next_execution\<close> with its four keywords
  (\<^verbatim>\<open>scheduled_start_timestamp__lte\<close>, \<^verbatim>\<open>handling\<close>, \<^verbatim>\<open>limit\<close>,
  \<^verbatim>\<open>order_by\<close>), and \<^verbatim>\<open>.first()\<close> of its result.
\<close>

definition next_execution_query :: "int \<Rightarrow> queue_item list \<Rightarrow> queue_item option" where
  "next_execution_query now q =
     first (limit 1 (order_by_scheduled_start_timestamp (query now False q)))"

definition get_next_execution ::
  "int \<Rightarrow> interference \<Rightarrow> world \<Rightarrow> queue_item option \<times> world" where
  "get_next_execution now others w =
     (case next_execution_query now (queue w) of
        None \<Rightarrow> (None, w)
      | Some execution_queue_item_db \<Rightarrow>
          (let w1 = w\<lparr>queue := others (queue w)\<rparr>;
               item = execution_queue_item_db\<lparr>handling := True\<rparr>
           in case add_or_update item False w1 of
                Inr (item', w2) \<Rightarrow> (Some item', w2)
              | Inl StackStormDBObjectWriteConflictError \<Rightarrow>
                  (None, emit (LOG (INFO_item_handled_by_another_scheduler (item_id item))) w1)))"

definition run_iteration :: "int \<Rightarrow> interference \<Rightarrow> world \<Rightarrow> world" where
  "run_iteration now others w =
     (case get_next_execution now others w of
        (None, w') \<Rightarrow> w'
      | (Some execution_queue_item_db, w') \<Rightarrow> emit (Spawn execution_queue_item_db) w')"

fun run_loop :: "(int \<times> interference) list \<Rightarrow> world \<Rightarrow> world" where
  "run_loop [] w = w"
| "run_loop ((now, others) # ticks) w = run_loop ticks (run_iteration now others w)"

definition run :: "(int \<times> interference) list \<Rightarrow> world \<Rightarrow> world" where
  "run ticks w = run_loop ticks (emit (LOG DEBUG_entering_scheduler_loop) w)"

subsection \<open>The dispatch worker\<close>

text \<open>
  \<open>now\<close> is the reading of the clock in the policy-delay branch of \<^verbatim>\<open>_apply_pre_run\<close>,
  the only place where the worker reads it. The function mutates the queue item it was
  given; the item as it is on return is the second component of the result. The first
  test is \<^verbatim>\<open>liveaction_db.status is action_constants.LIVEACTION_STATUS_POLICY_DELAYED\<close>,
  an identity test: it holds when the status attribute refers to the object of the
  constants module, not for an equal string that is another object. The second test uses
  \<^verbatim>\<open>in\<close>, which compares by equality.
\<close>

definition apply_pre_run ::
  "action_constants \<Rightarrow> policy_service \<Rightarrow> int \<Rightarrow> liveaction \<Rightarrow> queue_item \<Rightarrow> world
     \<Rightarrow> liveaction option \<times> queue_item \<times> world" where
  "apply_pre_run ac apply_pre_run_policies now liveaction_db0 execution_queue_item_db w =
     (let (liveaction_db, las) = apply_pre_run_policies liveaction_db0 (liveactions w);
          w1 = emit (LOG (INFO_status_pre_run (liveaction_ident liveaction_db)
                            (status liveaction_db) (item_id execution_queue_item_db)))
                 (w\<lparr>liveactions := las\<rparr>)
      in if status liveaction_db = LIVEACTION_STATUS_POLICY_DELAYED
            \<and> status_is_constant liveaction_db then
           (let (liveaction_db', w2) =
                  update_status liveaction_db LIVEACTION_STATUS_DELAYED False w1;
                item = execution_queue_item_db
                         \<lparr>scheduled_start_timestamp :=
                            append_milliseconds_to_time now
                              POLICY_DELAYED_EXECUTION_RESCHEDULE_TIME_MS\<rparr>
            in case add_or_update item False w2 of
                 Inr (item', w3) \<Rightarrow> (None, item', w3)
               | Inl StackStormDBObjectWriteConflictError \<Rightarrow>
                   (None, item,
                    emit (LOG (WARNING_update_conflict_during_scheduling (item_id item))) w2))
         else if status liveaction_db \<in> set (LIVEACTION_COMPLETED_STATES ac)
                 \<or> status liveaction_db \<in> set (LIVEACTION_CANCEL_STATES ac) then
           (None, execution_queue_item_db, delete execution_queue_item_db w1)
         else (Some liveaction_db, execution_queue_item_db, w1))"

definition is_execution_queue_item_runnable ::
  "liveaction \<Rightarrow> queue_item \<Rightarrow> world \<Rightarrow> bool \<times> world" where
  "is_execution_queue_item_runnable liveaction_db execution_queue_item_db w =
     (let valid_status = [LIVEACTION_STATUS_REQUESTED, LIVEACTION_STATUS_SCHEDULED,
                          LIVEACTION_STATUS_DELAYED]
      in if status liveaction_db \<in> set valid_status then (True, w)
         else (False,
               delete execution_queue_item_db
                 (emit (LOG (INFO_ignoring_after_policies (item_id execution_queue_item_db)
                               (status liveaction_db))) w)))"

definition update_to_scheduled :: "liveaction \<Rightarrow> queue_item \<Rightarrow> world \<Rightarrow> world" where
  "update_to_scheduled liveaction_db execution_queue_item_db w =
     (let w1 = emit (LOG (INFO_status_update_to_scheduled_1 (liveaction_ident liveaction_db)
                            (status liveaction_db) (item_id execution_queue_item_db))) w;
          (liveaction_db', w2) =
            (if status liveaction_db
                  \<in> set [LIVEACTION_STATUS_REQUESTED, LIVEACTION_STATUS_DELAYED]
             then update_status liveaction_db LIVEACTION_STATUS_SCHEDULED False w1
             else (liveaction_db, w1));
          w3 = publish_status liveaction_db' w2;
          w4 = delete execution_queue_item_db w3
      in emit (LOG (INFO_status_update_to_scheduled_2 (liveaction_ident liveaction_db')
                      (status liveaction_db') (item_id execution_queue_item_db))) w4)"

text \<open>
  The result \<open>Inl StackStormDBObjectNotFoundError\<close> is the exception that
  \<^verbatim>\<open>_handle_execution\<close> raises again into the \<^verbatim>\<open>metrics.CounterWithTimer\<close> wrapper
  around it; \<open>Inr ()\<close> is a normal return.
\<close>

definition handle_execution ::
  "action_constants \<Rightarrow> policy_service \<Rightarrow> int \<Rightarrow> queue_item \<Rightarrow> world
     \<Rightarrow> (lookup_error + unit) \<times> world" where
  "handle_execution ac apply_pre_run_policies now execution_queue_item_db w =
     (let w1 = emit (LOG (INFO_scheduling_liveaction (liveaction_id execution_queue_item_db)
                            (item_id execution_queue_item_db))) w
      in case get_liveaction_by_id (liveaction_id execution_queue_item_db) w1 of
           Inl StackStormDBObjectNotFoundError \<Rightarrow>
             (Inl StackStormDBObjectNotFoundError,
              delete execution_queue_item_db
                (emit (LOG (EXCEPTION_failed_to_find_liveaction
                              (liveaction_id execution_queue_item_db)
                              (item_id execution_queue_item_db))) w1))
         | Inr liveaction_db0 \<Rightarrow>
             (case apply_pre_run ac apply_pre_run_policies now liveaction_db0
                     execution_queue_item_db w1 of
                (None, item, w2) \<Rightarrow> (Inr (), w2)
              | (Some liveaction_db, item, w2) \<Rightarrow>
                  (case is_execution_queue_item_runnable liveaction_db item w2 of
                     (True, w3) \<Rightarrow> (Inr (), update_to_scheduled liveaction_db item w3)
                   | (False, w3) \<Rightarrow> (Inr (), w3))))"

subsection \<open>Example inputs\<close>

text \<open>
  A small instance on which the functions are run: one queue item for one live action,
  before and after a scheduler claimed it, and two policy services, one that changes
  nothing and one that assigns a status constant. \<open>example_liveaction\<close> is the live action
  as the lookup returns it. The two status sets are those of the platform.
\<close>

definition example_constants :: action_constants where
  "example_constants =
     \<lparr>LIVEACTION_COMPLETED_STATES =
        [LIVEACTION_STATUS_SUCCEEDED, LIVEACTION_STATUS_FAILED, LIVEACTION_STATUS_TIMED_OUT,
         LIVEACTION_STATUS_CANCELED, LIVEACTION_STATUS_ABANDONED],
      LIVEACTION_CANCEL_STATES = [LIVEACTION_STATUS_CANCELING, LIVEACTION_STATUS_CANCELED]\<rparr>"

definition example_item :: queue_item where
  "example_item =
     \<lparr>item_id = 1, revision = 0, liveaction_id = 7, scheduled_start_timestamp = 1000,
      handling = False, original_start_timestamp = 1000, action_execution_id = 3,
      delay = None\<rparr>"

definition claimed_item :: queue_item where
  "claimed_item = example_item\<lparr>handling := True, revision := 1\<rparr>"

definition example_document :: "liveaction_status \<Rightarrow> liveaction_document" where
  "example_document s = \<lparr>liveaction_ident = 7, status = s\<rparr>"

definition example_liveaction :: "liveaction_status \<Rightarrow> liveaction" where
  "example_liveaction s = \<lparr>liveaction_ident = 7, status = s, status_is_constant = False\<rparr>"

definition example_world :: "liveaction_status \<Rightarrow> world" where
  "example_world s = \<lparr>queue = [example_item], liveactions = [example_document s], trace = []\<rparr>"

definition claimed_world :: "liveaction_status \<Rightarrow> world" where
  "claimed_world s = \<lparr>queue = [claimed_item], liveactions = [example_document s], trace = []\<rparr>"

definition no_policy :: policy_service where
  "no_policy l las = (l, las)"

definition status_policy :: "liveaction_status \<Rightarrow> policy_service" where
  "status_policy s l las = (l\<lparr>status := s, status_is_constant := True\<rparr>, las)"

definition orphan_world :: world where
  "orphan_world = \<lparr>queue = [claimed_item], liveactions = [], trace = []\<rparr>"

definition example_queue :: "queue_item list" where
  "example_queue =
     [example_item\<lparr>item_id := 2, scheduled_start_timestamp := 1500\<rparr>,
      example_item,
      example_item\<lparr>item_id := 3, scheduled_start_timestamp := 500, handling := True\<rparr>,
      example_item\<lparr>item_id := 4, scheduled_start_timestamp := 5000\<rparr>]"

section \<open>Properties\<close>

subsection \<open>Basic facts about the collaborators\<close>

lemmas example_defs =
  example_constants_def example_item_def claimed_item_def example_document_def
  example_liveaction_def
  example_world_def claimed_world_def orphan_world_def no_policy_def
  status_policy_def

lemmas model_defs =
  next_execution_query_def query_def order_by_scheduled_start_timestamp_def limit_def first_def
  add_or_update_def stored_def delete_def emit_def get_liveaction_by_id_def publish_status_def
  update_status_def append_milliseconds_to_time_def
  EXECUTION_SCHEDUELING_TIMEOUT_THRESHOLD_MS_def POLICY_DELAYED_EXECUTION_RESCHEDULE_TIME_MS_def
  get_next_execution_def run_iteration_def handle_garbage_collection_def apply_pre_run_def
  is_execution_queue_item_runnable_def update_to_scheduled_def handle_execution_def

lemma get_liveaction_by_id_emit [simp]:
  "get_liveaction_by_id i (emit e w) = get_liveaction_by_id i w"
  by (simp add: get_liveaction_by_id_def emit_def)

lemma trace_emit [simp]: "trace (emit e w) = trace w @ [e]"
  and queue_emit [simp]: "queue (emit e w) = queue w"
  and liveactions_emit [simp]: "liveactions (emit e w) = liveactions w"
  by (simp_all add: emit_def)

lemma delete_simps [simp]:
  "trace (delete item w) = trace w @ [QueueDelete item]"
  "queue (delete item w) = filter (\<lambda>x. item_id x \<noteq> item_id item) (queue w)"
  "liveactions (delete item w) = liveactions w"
  by (simp_all add: delete_def)

lemma publish_status_simps [simp]:
  "trace (publish_status l w) = trace w @ [PublishStatus l]"
  "queue (publish_status l w) = queue w"
  "liveactions (publish_status l w) = liveactions w"
  by (simp_all add: publish_status_def)

lemma update_status_simps [simp]:
  "fst (update_status l s False w) = l\<lparr>status := s, status_is_constant := True\<rparr>"
  "trace (snd (update_status l s False w)) = trace w @ [UpdateStatus l s False]"
  "queue (snd (update_status l s False w)) = queue w"
  "liveactions (snd (update_status l s False w)) =
     map (\<lambda>x. if liveaction_ident x = liveaction_ident l
               then \<lparr>liveaction_ident = liveaction_ident l, status = s\<rparr> else x) (liveactions w)"
  by (simp_all add: update_status_def Let_def)

lemma update_to_scheduled_trace:
  "trace (update_to_scheduled l item w) =
     trace w @ [LOG (INFO_status_update_to_scheduled_1 (liveaction_ident l) (status l) (item_id item))]
       @ (if status l = LIVEACTION_STATUS_REQUESTED \<or> status l = LIVEACTION_STATUS_DELAYED
          then [UpdateStatus l LIVEACTION_STATUS_SCHEDULED False] else [])
       @ [PublishStatus (if status l = LIVEACTION_STATUS_REQUESTED \<or> status l = LIVEACTION_STATUS_DELAYED
                         then l\<lparr>status := LIVEACTION_STATUS_SCHEDULED, status_is_constant := True\<rparr> else l),
          QueueDelete item,
          LOG (INFO_status_update_to_scheduled_2 (liveaction_ident l)
                 (if status l = LIVEACTION_STATUS_REQUESTED \<or> status l = LIVEACTION_STATUS_DELAYED
                  then LIVEACTION_STATUS_SCHEDULED else status l) (item_id item))]"
  by (simp add: update_to_scheduled_def split_def Let_def)

lemma update_to_scheduled_queue:
  "queue (update_to_scheduled l item w) = filter (\<lambda>x. item_id x \<noteq> item_id item) (queue w)"
  by (simp add: update_to_scheduled_def split_def Let_def)

lemma update_to_scheduled_liveactions:
  "liveactions (update_to_scheduled l item w) =
     (if status l = LIVEACTION_STATUS_REQUESTED \<or> status l = LIVEACTION_STATUS_DELAYED
      then map (\<lambda>x. if liveaction_ident x = liveaction_ident l
                      then \<lparr>liveaction_ident = liveaction_ident l,
                            status = LIVEACTION_STATUS_SCHEDULED\<rparr>
                      else x) (liveactions w)
      else liveactions w)"
  by (simp add: update_to_scheduled_def split_def Let_def)

lemma apply_pre_run_pass:
  assumes "apply_pre_run_policies l0 (liveactions w) = (l, las)"
      and "\<not> (status l = LIVEACTION_STATUS_POLICY_DELAYED \<and> status_is_constant l)"
      and "status l \<notin> set (LIVEACTION_COMPLETED_STATES ac)"
      and "status l \<notin> set (LIVEACTION_CANCEL_STATES ac)"
  shows "apply_pre_run ac apply_pre_run_policies now l0 item w =
           (Some l, item,
            emit (LOG (INFO_status_pre_run (liveaction_ident l) (status l) (item_id item)))
              (w\<lparr>liveactions := las\<rparr>))"
  using assms by (auto simp add: apply_pre_run_def Let_def)

lemma apply_pre_run_drop:
  assumes "apply_pre_run_policies l0 (liveactions w) = (l, las)"
      and "\<not> (status l = LIVEACTION_STATUS_POLICY_DELAYED \<and> status_is_constant l)"
      and "status l \<in> set (LIVEACTION_COMPLETED_STATES ac)
           \<or> status l \<in> set (LIVEACTION_CANCEL_STATES ac)"
  shows "apply_pre_run ac apply_pre_run_policies now l0 item w =
           (None, item,
            delete item
              (emit (LOG (INFO_status_pre_run (liveaction_ident l) (status l) (item_id item)))
                 (w\<lparr>liveactions := las\<rparr>)))"
  using assms by (auto simp add: apply_pre_run_def Let_def)

lemma handle_execution_schedule_path:
  assumes "get_liveaction_by_id (liveaction_id item) w = Inr l0"
      and "apply_pre_run_policies l0 (liveactions w) = (l, las)"
      and "status l \<in> {LIVEACTION_STATUS_REQUESTED, LIVEACTION_STATUS_SCHEDULED, LIVEACTION_STATUS_DELAYED}"
      and "status l \<notin> set (LIVEACTION_COMPLETED_STATES ac)"
      and "status l \<notin> set (LIVEACTION_CANCEL_STATES ac)"
  shows "handle_execution ac apply_pre_run_policies now item w =
           (Inr (),
            update_to_scheduled l item
              (emit (LOG (INFO_status_pre_run (liveaction_ident l) (status l) (item_id item)))
                (emit (LOG (INFO_scheduling_liveaction (liveaction_id item) (item_id item))) w
                   \<lparr>liveactions := las\<rparr>)))"
proof -
  have nd: "status l \<noteq> LIVEACTION_STATUS_POLICY_DELAYED"
    using assms(3) by auto
  let ?w1 = "emit (LOG (INFO_scheduling_liveaction (liveaction_id item) (item_id item))) w"
  have pre: "apply_pre_run ac apply_pre_run_policies now l0 item ?w1 =
           (Some l, item,
            emit (LOG (INFO_status_pre_run (liveaction_ident l) (status l) (item_id item)))
              (?w1\<lparr>liveactions := las\<rparr>))"
    by (rule apply_pre_run_pass) (use assms nd in simp_all)
  have run: "is_execution_queue_item_runnable l item w' = (True, w')" for w'
    using assms(3) by (auto simp add: is_execution_queue_item_runnable_def)
  show ?thesis
    by (simp add: handle_execution_def Let_def assms(1) pre run)
qed

lemma handle_execution_not_found:
  assumes "get_liveaction_by_id (liveaction_id item) w = Inl StackStormDBObjectNotFoundError"
  shows "handle_execution ac apply_pre_run_policies now item w =
           (Inl StackStormDBObjectNotFoundError,
            delete item
              (emit (LOG (EXCEPTION_failed_to_find_liveaction (liveaction_id item) (item_id item)))
                 (emit (LOG (INFO_scheduling_liveaction (liveaction_id item) (item_id item))) w)))"
  using assms by (simp add: handle_execution_def Let_def)

lemma first_Some: "first q = Some i \<longleftrightarrow> q \<noteq> [] \<and> i = hd q"
  by (cases q) (auto simp add: first_def)

lemma next_execution_query_eq:
  "next_execution_query now q =
     first (sort_key scheduled_start_timestamp (query now False q))"
  by (cases "sort_key scheduled_start_timestamp (query now False q)")
     (simp_all add: next_execution_query_def limit_def order_by_scheduled_start_timestamp_def
        first_def)

lemma next_execution_query_mem:
  assumes "next_execution_query now q = Some i"
  shows "i \<in> set (query now False q)"
proof -
  let ?s = "sort_key scheduled_start_timestamp (query now False q)"
  from assms have "?s \<noteq> []" and "i = hd ?s"
    by (simp_all add: next_execution_query_eq first_Some)
  then have "i \<in> set ?s"
    using hd_in_set by blast
  then show ?thesis
    by simp
qed

lemma query_set:
  "set (query t h q) = {i \<in> set q. scheduled_start_timestamp i \<le> t \<and> handling i = h}"
  by (auto simp add: query_def)

lemma add_or_update_Inr:
  assumes "add_or_update item publish w = Inr (item', w')"
  shows "item' = item\<lparr>revision := revision item + 1\<rparr>"
    and "queue w' = map (\<lambda>x. if item_id x = item_id item then item' else x) (queue w)"
    and "liveactions w' = liveactions w"
    and "\<exists>s. stored (item_id item) (queue w) = Some s \<and> revision s = revision item"
    and "trace w' = trace w @ QueueWrite item' # (if publish then [QueuePublish item'] else [])"
  using assms
  by (auto simp add: add_or_update_def Let_def split: option.splits if_splits)

lemma add_or_update_ids:
  assumes "add_or_update item publish w = Inr (item', w')"
  shows "item_id ` set (queue w') = item_id ` set (queue w)"
proof -
  have "map item_id (queue w') = map item_id (queue w)"
    using add_or_update_Inr(1,2) [OF assms] by (simp add: comp_def cong: map_cong)
  then have "set (map item_id (queue w')) = set (map item_id (queue w))"
    by simp
  then show ?thesis
    by simp
qed

lemma get_next_execution_Some:
  assumes "get_next_execution now others w = (Some item, w')"
  shows "\<exists>i. next_execution_query now (queue w) = Some i
             \<and> add_or_update (i\<lparr>handling := True\<rparr>) False (w\<lparr>queue := others (queue w)\<rparr>)
                 = Inr (item, w')"
  using assms
  by (auto simp add: get_next_execution_def Let_def split: option.splits sum.splits write_error.splits)


lemma stored_Some:
  assumes "stored i q = Some s"
  shows "s \<in> set q" and "item_id s = i"
  using assms by (auto simp add: stored_def find_Some_iff)

lemma stored_None: "stored i q = None \<longleftrightarrow> i \<notin> item_id ` set q"
  by (auto simp add: stored_def find_None_iff)

lemma stored_map_replace:
  assumes "stored i q = Some s" and "item_id item = i"
  shows "stored i (map (\<lambda>x. if item_id x = i then item else x) q) = Some item"
  using assms by (induction q) (auto simp add: stored_def)

lemma add_or_update_stale:
  assumes "\<forall>x\<in>set (queue w). item_id x = item_id item \<longrightarrow> revision item < revision x"
  shows "add_or_update item publish w = Inl StackStormDBObjectWriteConflictError"
proof (cases "stored (item_id item) (queue w)")
  case None
  then show ?thesis
    by (simp add: add_or_update_def)
next
  case (Some s)
  with assms have "revision item < revision s"
    using stored_Some [OF Some] by blast
  with Some show ?thesis
    by (simp add: add_or_update_def)
qed

lemma add_or_update_newer:
  assumes "add_or_update item publish w = Inr (item', w')"
  shows "\<forall>x\<in>set (queue w'). item_id x = item_id item \<longrightarrow> revision item < revision x"
  using add_or_update_Inr(1,2) [OF assms] by auto

lemma add_or_update_keeps_newer:
  assumes "add_or_update item publish w = Inr (item', w')"
      and "\<forall>x\<in>set (queue w). item_id x = i \<longrightarrow> r < revision x"
  shows "\<forall>x\<in>set (queue w'). item_id x = i \<longrightarrow> r < revision x"
proof (cases "item_id item = i")
  case True
  obtain s where s: "stored (item_id item) (queue w) = Some s" "revision s = revision item"
    using add_or_update_Inr(4) [OF assms(1)] by blast
  have "r < revision s"
    using assms(2) stored_Some [OF s(1)] True by blast
  then have "r < revision item'"
    using add_or_update_Inr(1) [OF assms(1)] s(2) by simp
  then show ?thesis
    using add_or_update_Inr(2) [OF assms(1)] assms(2) by auto
next
  case False
  then show ?thesis
    using add_or_update_Inr(1,2) [OF assms(1)] assms(2) by auto
qed

lemma store_calls_keep_newer:
  assumes "\<forall>x\<in>set (queue w). item_id x = i \<longrightarrow> r < revision x"
  shows "\<forall>x\<in>set (queue (store_calls cs w)). item_id x = i \<longrightarrow> r < revision x"
  using assms
proof (induction cs arbitrary: w)
  case Nil
  then show ?case by simp
next
  case (Cons c cs)
  show ?case
  proof (cases c)
    case (AddOrUpdate item publish)
    show ?thesis
    proof (cases "add_or_update item publish w")
      case (Inl e)
      from Cons.IH [OF Cons.prems] show ?thesis
        using AddOrUpdate Inl by (cases e) simp
    next
      case (Inr p)
      obtain item' w' where p: "p = (item', w')"
        by (cases p)
      have "\<forall>x\<in>set (queue w'). item_id x = i \<longrightarrow> r < revision x"
        using add_or_update_keeps_newer [OF Inr [unfolded p] Cons.prems] .
      from Cons.IH [OF this] show ?thesis
        using AddOrUpdate Inr p by simp
    qed
  next
    case (Delete item)
    have "\<forall>x\<in>set (queue (delete item w)). item_id x = i \<longrightarrow> r < revision x"
      using Cons.prems by simp
    from Cons.IH [OF this] show ?thesis
      using Delete by simp
  qed
qed

lemma add_or_update_queue_only:
  assumes "queue w = queue v"
  shows "(add_or_update item publish w = Inl StackStormDBObjectWriteConflictError)
         = (add_or_update item publish v = Inl StackStormDBObjectWriteConflictError)"
  using assms by (simp add: add_or_update_def Let_def split: option.splits)

lemma sorted_hd_least:
  assumes "sorted (map f xs)" and "x \<in> set xs"
  shows "f (hd xs) \<le> f x"
  using assms by (cases xs) auto

lemma next_execution_query_least:
  assumes "next_execution_query now q = Some i" and "x \<in> set (query now False q)"
  shows "scheduled_start_timestamp i \<le> scheduled_start_timestamp x"
proof -
  let ?s = "sort_key scheduled_start_timestamp (query now False q)"
  from assms(1) have i: "i = hd ?s"
    by (simp add: next_execution_query_eq first_Some)
  have "sorted (map scheduled_start_timestamp ?s)"
    by (rule sorted_sort_key)
  moreover have "x \<in> set ?s"
    using assms(2) by simp
  ultimately show ?thesis
    unfolding i by (rule sorted_hd_least)
qed

lemma next_execution_query_None:
  "next_execution_query now q = None \<longleftrightarrow> query now False q = []"
proof -
  have "sort_key scheduled_start_timestamp (query now False q) = [] \<longleftrightarrow> query now False q = []"
    by (metis length_0_conv length_sort)
  then show ?thesis
    by (cases "sort_key scheduled_start_timestamp (query now False q)")
       (simp_all add: next_execution_query_eq first_def)
qed

lemma apply_pre_run_Some:
  assumes "apply_pre_run ac apply_pre_run_policies now l0 item w = (Some l, item', w')"
  shows "item' = item" and "queue w' = queue w"
    and "drop (length (trace w)) (trace w')
           = [LOG (INFO_status_pre_run (liveaction_ident l) (status l) (item_id item))]"
    and "l = fst (apply_pre_run_policies l0 (liveactions w))"
    and "\<not> (status l = LIVEACTION_STATUS_POLICY_DELAYED \<and> status_is_constant l)"
    and "status l \<notin> set (LIVEACTION_COMPLETED_STATES ac)"
    and "status l \<notin> set (LIVEACTION_CANCEL_STATES ac)"
  using assms
  by (auto simp add: apply_pre_run_def Let_def split_def
      split: if_splits sum.splits write_error.splits)

lemma apply_pre_run_None:
  "fst (apply_pre_run ac apply_pre_run_policies now l0 item w) = None \<longleftrightarrow>
     (let l = fst (apply_pre_run_policies l0 (liveactions w))
      in status l = LIVEACTION_STATUS_POLICY_DELAYED \<and> status_is_constant l
         \<or> status l \<in> set (LIVEACTION_COMPLETED_STATES ac)
         \<or> status l \<in> set (LIVEACTION_CANCEL_STATES ac))"
  by (auto simp add: apply_pre_run_def Let_def split_def
      split: if_splits sum.splits write_error.splits)

lemma absent_after_delete: "item_id item \<notin> item_id ` set (queue (delete item w))"
  by auto

lemma get_next_execution_absent:
  assumes "i \<notin> item_id ` set (queue w)"
      and "get_next_execution now others w = (Some item, w')"
  shows "item_id item \<noteq> i"
proof -
  obtain j where j: "next_execution_query now (queue w) = Some j"
    and ok: "add_or_update (j\<lparr>handling := True\<rparr>) False (w\<lparr>queue := others (queue w)\<rparr>)
                 = Inr (item, w')"
    using get_next_execution_Some [OF assms(2)] by blast
  have "j \<in> set (queue w)"
    using next_execution_query_mem [OF j] by (simp add: query_set)
  moreover have "item_id item = item_id j"
    using add_or_update_Inr(1) [OF ok] by simp
  ultimately show ?thesis
    using assms(1) by force
qed

lemma run_iteration_absent:
  assumes "i \<notin> item_id ` set (queue w)"
      and "\<forall>q. i \<notin> item_id ` set q \<longrightarrow> i \<notin> item_id ` set (others q)"
  shows "i \<notin> item_id ` set (queue (run_iteration now others w))
       \<and> (\<exists>es. trace (run_iteration now others w) = trace w @ es
               \<and> (\<forall>x. Spawn x \<in> set es \<longrightarrow> item_id x \<noteq> i))"
proof (cases "next_execution_query now (queue w)")
  case None
  then have "run_iteration now others w = w"
    by (simp add: run_iteration_def get_next_execution_def)
  then show ?thesis
    using assms(1) by simp
next
  case (Some j)
  let ?v = "w\<lparr>queue := others (queue w)\<rparr>"
  have v: "i \<notin> item_id ` set (queue ?v)"
    using assms by simp
  show ?thesis
  proof (cases "add_or_update (j\<lparr>handling := True\<rparr>) False ?v")
    case (Inl e)
    then have "run_iteration now others w =
                 emit (LOG (INFO_item_handled_by_another_scheduler (item_id j))) ?v"
      by (cases e) (simp add: run_iteration_def get_next_execution_def Some)
    then show ?thesis
      using v by simp
  next
    case (Inr p)
    obtain item w' where p: "p = (item, w')"
      by (cases p)
    note ok = Inr [unfolded p]
    have g: "get_next_execution now others w = (Some item, w')"
      by (simp add: get_next_execution_def Some ok)
    have "item_id item \<noteq> i"
      using get_next_execution_absent [OF assms(1) g] .
    moreover have "i \<notin> item_id ` set (queue w')"
      using add_or_update_ids [OF ok] v by simp
    moreover have "trace w' = trace w @ [QueueWrite item]"
      using add_or_update_Inr(5) [OF ok] by simp
    ultimately show ?thesis
      by (simp add: run_iteration_def g)
  qed
qed

lemma run_loop_absent:
  assumes "i \<notin> item_id ` set (queue w)"
      and "\<forall>tick\<in>set ticks. \<forall>q. i \<notin> item_id ` set q \<longrightarrow> i \<notin> item_id ` set (snd tick q)"
  shows "\<exists>es. trace (run_loop ticks w) = trace w @ es
               \<and> (\<forall>x. Spawn x \<in> set es \<longrightarrow> item_id x \<noteq> i)"
  using assms
proof (induction ticks arbitrary: w)
  case Nil
  then show ?case by simp
next
  case (Cons tick ticks)
  obtain now others where tick: "tick = (now, others)"
    by (cases tick)
  have "\<forall>q. i \<notin> item_id ` set q \<longrightarrow> i \<notin> item_id ` set (snd tick q)"
    using Cons.prems(2) by (rule bspec) simp
  then have keep: "\<forall>q. i \<notin> item_id ` set q \<longrightarrow> i \<notin> item_id ` set (others q)"
    unfolding tick snd_conv .
  let ?v = "run_iteration now others w"
  from run_iteration_absent [where now = now and others = others and w = w and i = i,
      OF Cons.prems(1) keep]
  obtain es where v: "i \<notin> item_id ` set (queue ?v)"
    and es: "trace ?v = trace w @ es" "\<forall>x. Spawn x \<in> set es \<longrightarrow> item_id x \<noteq> i"
    by blast
  have rest: "\<forall>tick\<in>set ticks. \<forall>q. i \<notin> item_id ` set q \<longrightarrow> i \<notin> item_id ` set (snd tick q)"
    using Cons.prems(2) by (meson list.set_intros(2))
  from Cons.IH [OF v rest]
  obtain es' where es': "trace (run_loop ticks ?v) = trace ?v @ es'"
      "\<forall>x. Spawn x \<in> set es' \<longrightarrow> item_id x \<noteq> i"
    by blast
  have "run_loop (tick # ticks) w = run_loop ticks ?v"
    unfolding tick by simp
  then have "trace (run_loop (tick # ticks) w) = trace w @ (es @ es')"
    using es(1) es'(1) by simp
  moreover have "\<forall>x. Spawn x \<in> set (es @ es') \<longrightarrow> item_id x \<noteq> i"
    using es(2) es'(2) by (metis Un_iff set_append)
  ultimately show ?case
    by blast
qed

lemma example_claim:
  "get_next_execution 2000 (\<lambda>q. q) (example_world s)
     = (Some claimed_item, (claimed_world s)\<lparr>trace := [QueueWrite claimed_item]\<rparr>)"
  by (simp add: example_defs model_defs Let_def)

text \<open>
  The policy-delay branch of \<^verbatim>\<open>_apply_pre_run\<close> on any input on which it is taken: nothing
  is returned, the live action is set to \<open>delayed\<close> by one unpublished update, nothing is
  published or deleted, the item in hand gets the start time \<open>now + 1500\<close> and keeps its
  \<open>handling\<close> flag, and the queue holds nothing new but, when the write went through, that
  item.
\<close>

lemma apply_pre_run_policy_delay:
  assumes "apply_pre_run_policies l0 (liveactions w) = (l, las)"
      and "status l = LIVEACTION_STATUS_POLICY_DELAYED" and "status_is_constant l"
  shows "\<exists>item' w'.
           apply_pre_run ac apply_pre_run_policies now l0 item w = (None, item', w')
         \<and> handling item' = handling item
         \<and> scheduled_start_timestamp item' = now + 1500
         \<and> (\<forall>x\<in>set (queue w'). x \<in> set (queue w) \<or> x = item')
         \<and> liveactions w'
             = map (\<lambda>x. if liveaction_ident x = liveaction_ident l
                          then \<lparr>liveaction_ident = liveaction_ident l,
                                status = LIVEACTION_STATUS_DELAYED\<rparr>
                          else x) las
         \<and> filter is_UpdateStatus (drop (length (trace w)) (trace w'))
             = [UpdateStatus l LIVEACTION_STATUS_DELAYED False]
         \<and> \<not> list_ex is_PublishStatus (drop (length (trace w)) (trace w'))
         \<and> \<not> list_ex is_QueueDelete (drop (length (trace w)) (trace w'))"
proof -
  let ?w1 = "emit (LOG (INFO_status_pre_run (liveaction_ident l) (status l) (item_id item)))
               (w\<lparr>liveactions := las\<rparr>)"
  let ?w2 = "snd (update_status l LIVEACTION_STATUS_DELAYED False ?w1)"
  let ?item = "item\<lparr>scheduled_start_timestamp := now + 1500\<rparr>"
  show ?thesis
  proof (cases "add_or_update ?item False ?w2")
    case (Inl e)
    then have "apply_pre_run ac apply_pre_run_policies now l0 item w
                 = (None, ?item,
                    emit (LOG (WARNING_update_conflict_during_scheduling (item_id ?item))) ?w2)"
      using assms
      by (cases e)
         (simp add: apply_pre_run_def split_def Let_def append_milliseconds_to_time_def
            POLICY_DELAYED_EXECUTION_RESCHEDULE_TIME_MS_def)
    then show ?thesis
      by simp
  next
    case (Inr p)
    obtain item' w3 where p: "p = (item', w3)"
      by (cases p)
    note ok = Inr [unfolded p]
    have r: "apply_pre_run ac apply_pre_run_policies now l0 item w = (None, item', w3)"
      using assms ok
      by (simp add: apply_pre_run_def split_def Let_def append_milliseconds_to_time_def
            POLICY_DELAYED_EXECUTION_RESCHEDULE_TIME_MS_def)
    have "item' = ?item\<lparr>revision := revision ?item + 1\<rparr>"
      using add_or_update_Inr(1) [OF ok] .
    moreover have "queue w3 = map (\<lambda>x. if item_id x = item_id ?item then item' else x) (queue ?w2)"
      using add_or_update_Inr(2) [OF ok] .
    moreover have "liveactions w3 = liveactions ?w2"
      using add_or_update_Inr(3) [OF ok] .
    moreover have "trace w3 = trace ?w2 @ [QueueWrite item']"
      using add_or_update_Inr(5) [OF ok] by simp
    ultimately show ?thesis
      using r by auto
  qed
qed

text \<open>
  One iteration of the claim loop either claims an item and spawns the worker for it, or
  gets nothing and spawns nothing; and every worker the loop ever spawns is for an item
  that was claimed and written just before.
\<close>

lemma run_iteration_cases:
  "(\<exists>item w'. get_next_execution now others w = (Some item, w')
       \<and> run_iteration now others w = emit (Spawn item) w'
       \<and> trace w' = trace w @ [QueueWrite item])
   \<or> (fst (get_next_execution now others w) = None
       \<and> \<not> list_ex is_Spawn (drop (length (trace w)) (trace (run_iteration now others w)))
       \<and> (\<exists>es. trace (run_iteration now others w) = trace w @ es \<and> \<not> list_ex is_Spawn es))"
proof (cases "next_execution_query now (queue w)")
  case None
  then have "get_next_execution now others w = (None, w)"
    by (simp add: get_next_execution_def)
  then show ?thesis
    by (simp add: run_iteration_def)
next
  case (Some j)
  let ?v = "w\<lparr>queue := others (queue w)\<rparr>"
  show ?thesis
  proof (cases "add_or_update (j\<lparr>handling := True\<rparr>) False ?v")
    case (Inl e)
    then have "get_next_execution now others w =
                 (None, emit (LOG (INFO_item_handled_by_another_scheduler (item_id j))) ?v)"
      by (cases e) (simp add: get_next_execution_def Some)
    then show ?thesis
      by (simp add: run_iteration_def)
  next
    case (Inr p)
    obtain item w' where p: "p = (item, w')"
      by (cases p)
    note ok = Inr [unfolded p]
    have g: "get_next_execution now others w = (Some item, w')"
      by (simp add: get_next_execution_def Some ok)
    moreover have "trace w' = trace w @ [QueueWrite item]"
      using add_or_update_Inr(5) [OF ok] by simp
    ultimately show ?thesis
      by (simp add: run_iteration_def)
  qed
qed

lemma get_next_execution_claimed:
  assumes "get_next_execution now others w = (Some item, w')"
  shows "handling item"
    and "stored (item_id item) (queue w') = Some item"
    and "\<forall>x\<in>set (queue w'). item_id x = item_id item \<longrightarrow> x = item"
    and "drop (length (trace w)) (trace w') = [QueueWrite item]"
    and "\<exists>i\<in>set (queue w). \<not> handling i
             \<and> item = i\<lparr>handling := True, revision := revision i + 1\<rparr>"
proof -
  obtain i where i: "next_execution_query now (queue w) = Some i"
    and ok: "add_or_update (i\<lparr>handling := True\<rparr>) False (w\<lparr>queue := others (queue w)\<rparr>)
                 = Inr (item, w')"
    using get_next_execution_Some [OF assms] by blast
  have mem: "i \<in> set (queue w)" "\<not> handling i"
    using next_execution_query_mem [OF i] by (simp_all add: query_set)
  have item: "item = i\<lparr>handling := True, revision := revision i + 1\<rparr>"
    using add_or_update_Inr(1) [OF ok] by simp
  obtain s where s: "stored (item_id i) (others (queue w)) = Some s"
    using add_or_update_Inr(4) [OF ok] by auto
  have q: "queue w' = map (\<lambda>x. if item_id x = item_id i then item else x) (others (queue w))"
    using add_or_update_Inr(2) [OF ok] by simp
  show "handling item"
    using item by simp
  show "stored (item_id item) (queue w') = Some item"
    using stored_map_replace [OF s, of item] item q by simp
  show "\<forall>x\<in>set (queue w'). item_id x = item_id item \<longrightarrow> x = item"
    using q item by auto
  show "drop (length (trace w)) (trace w') = [QueueWrite item]"
    using add_or_update_Inr(5) [OF ok] by simp
  show "\<exists>i\<in>set (queue w). \<not> handling i
             \<and> item = i\<lparr>handling := True, revision := revision i + 1\<rparr>"
    using mem item by blast
qed

lemma run_iteration_spawn:
  assumes "Spawn x \<in> set (drop (length (trace w)) (trace (run_iteration now others w)))"
  shows "\<exists>w'. get_next_execution now others w = (Some x, w')
              \<and> run_iteration now others w = emit (Spawn x) w'
              \<and> trace w' = trace w @ [QueueWrite x]"
proof -
  from run_iteration_cases [of now others w] show ?thesis
  proof (elim disjE exE conjE)
    fix item w'
    assume g: "get_next_execution now others w = (Some item, w')"
      and r: "run_iteration now others w = emit (Spawn item) w'"
      and t: "trace w' = trace w @ [QueueWrite item]"
    from assms have "x = item"
      by (simp add: r t)
    with g r t show ?thesis
      by blast
  next
    fix es
    assume "\<not> list_ex is_Spawn (drop (length (trace w)) (trace (run_iteration now others w)))"
    with assms have False
      by (auto simp add: list_ex_iff)
    then show ?thesis ..
  qed
qed

lemma run_loop_spawns:
  "\<exists>es. trace (run_loop ticks w) = trace w @ es
        \<and> (\<forall>x. Spawn x \<in> set es \<longrightarrow>
               handling x \<and> (\<exists>before after. es = before @ [QueueWrite x, Spawn x] @ after))"
proof (induction ticks arbitrary: w)
  case Nil
  show ?case by simp
next
  case (Cons tick ticks)
  obtain now others where tick: "tick = (now, others)"
    by (cases tick)
  let ?v = "run_iteration now others w"
  obtain es' where es': "trace (run_loop ticks ?v) = trace ?v @ es'"
    and sp': "\<forall>x. Spawn x \<in> set es' \<longrightarrow>
               handling x \<and> (\<exists>before after. es' = before @ [QueueWrite x, Spawn x] @ after)"
    using Cons.IH [of ?v] by blast
  have loop: "run_loop (tick # ticks) w = run_loop ticks ?v"
    unfolding tick by simp
  from run_iteration_cases [of now others w] show ?case
  proof (elim disjE exE conjE)
    fix item w'
    assume g: "get_next_execution now others w = (Some item, w')"
      and r: "?v = emit (Spawn item) w'"
      and t: "trace w' = trace w @ [QueueWrite item]"
    have h: "handling item"
      using get_next_execution_claimed(1) [OF g] .
    let ?es = "[QueueWrite item, Spawn item] @ es'"
    have tr: "trace (run_loop (tick # ticks) w) = trace w @ ?es"
      using loop es' r t by simp
    have "handling x \<and> (\<exists>before after. ?es = before @ [QueueWrite x, Spawn x] @ after)"
      if x: "Spawn x \<in> set ?es" for x
    proof (cases "x = item")
      case True
      have "?es = [] @ [QueueWrite x, Spawn x] @ es'"
        using True by simp
      then show ?thesis
        using h True by blast
    next
      case False
      then have "Spawn x \<in> set es'"
        using x by simp
      then obtain before after where hx: "handling x"
        and d: "es' = before @ [QueueWrite x, Spawn x] @ after"
        using sp' by blast
      have "?es = ([QueueWrite item, Spawn item] @ before) @ [QueueWrite x, Spawn x] @ after"
        using d by simp
      then show ?thesis
        using hx by blast
    qed
    then show ?thesis
      using tr by blast
  next
    fix es
    assume t: "trace ?v = trace w @ es" and n: "\<not> list_ex is_Spawn es"
    let ?es = "es @ es'"
    have tr: "trace (run_loop (tick # ticks) w) = trace w @ ?es"
      using loop es' t by simp
    have "handling x \<and> (\<exists>before after. ?es = before @ [QueueWrite x, Spawn x] @ after)"
      if x: "Spawn x \<in> set ?es" for x
    proof -
      have "Spawn x \<notin> set es"
        using n by (auto simp add: list_ex_iff)
      then have "Spawn x \<in> set es'"
        using x by simp
      then obtain before after where hx: "handling x"
        and d: "es' = before @ [QueueWrite x, Spawn x] @ after"
        using sp' by blast
      have "?es = (es @ before) @ [QueueWrite x, Spawn x] @ after"
        using d by simp
      then show ?thesis
        using hx by blast
    qed
    then show ?thesis
      using tr by blast
  qed
qed

subsection \<open>Policy delay\<close>

text \<open>
  Claim C1: when the live action is \<open>policy_delayed\<close> after the pre-run policies, the
  worker sets it to \<open>delayed\<close> without publishing, rewrites the queue item with a start
  time at least 1500 ms ahead and with \<open>handling = False\<close>, and neither deletes nor
  dispatches the item.

  The code does all of this but the reset of \<open>handling\<close>: \<^verbatim>\<open>_apply_pre_run\<close> never
  assigns the flag, so the item that \<^verbatim>\<open>_get_next_execution\<close> claimed is written back
  still claimed. Run on the example: the worker returns normally, the live action is
  \<open>delayed\<close> through one unpublished update, and the stored item has the start time
  \<open>2000 + 1500\<close> and \<open>handling = True\<close>. No claim loop picks it up at that time or a
  minute later; only a garbage collection at \<open>3500 + 60000\<close> or later releases it.
  That the flag is kept on every input is lemma \<open>apply_pre_run_policy_delay\<close>.
\<close>

theorem policy_delay_keeps_handling:
  "(case handle_execution example_constants (status_policy LIVEACTION_STATUS_POLICY_DELAYED)
           2000 claimed_item (claimed_world LIVEACTION_STATUS_REQUESTED) of
      (r, w') \<Rightarrow>
        r = Inr ()
      \<and> queue w' = [claimed_item\<lparr>scheduled_start_timestamp := 3500, revision := 2\<rparr>]
      \<and> map handling (queue w') = [True]
      \<and> liveactions w' = [example_document LIVEACTION_STATUS_DELAYED]
      \<and> filter is_UpdateStatus (trace w')
          = [UpdateStatus
               ((example_liveaction LIVEACTION_STATUS_POLICY_DELAYED)\<lparr>status_is_constant := True\<rparr>)
               LIVEACTION_STATUS_DELAYED False]
      \<and> get_next_execution 3500 (\<lambda>q. q) w' = (None, w')
      \<and> get_next_execution 62000 (\<lambda>q. q) w' = (None, w')
      \<and> queue (handle_garbage_collection 63499 (\<lambda>q. q) w') = queue w'
      \<and> map handling (queue (handle_garbage_collection 63500 (\<lambda>q. q) w')) = [False])"
  by (simp add: example_defs model_defs Let_def)

subsection \<open>Publish before delete\<close>

text \<open>
  Claim C2: on every successful schedule path of the dispatch worker the publish of the
  scheduled status comes strictly before the delete of the queue item, and the delete is
  never done without that publish before it.

  The schedule path is the one on which the live action is found, and its status after
  the policies is one of \<open>requested\<close>, \<open>scheduled\<close>, \<open>delayed\<close> and in neither the
  completed nor the cancel set. On it, what the worker adds to the trace has the shape
  \<open>before @ [PublishStatus l, QueueDelete item] @ after\<close> with \<open>l\<close> in status \<open>scheduled\<close>,
  and neither \<open>before\<close> nor \<open>after\<close> holds another delete or publish.
\<close>

theorem publish_before_delete:
  assumes "get_liveaction_by_id (liveaction_id item) w = Inr l0"
      and "apply_pre_run_policies l0 (liveactions w) = (l, las)"
      and "status l \<in> {LIVEACTION_STATUS_REQUESTED, LIVEACTION_STATUS_SCHEDULED, LIVEACTION_STATUS_DELAYED}"
      and "status l \<notin> set (LIVEACTION_COMPLETED_STATES ac)"
      and "status l \<notin> set (LIVEACTION_CANCEL_STATES ac)"
  shows "\<exists>before after.
           trace (snd (handle_execution ac apply_pre_run_policies now item w)) =
             trace w @ before
               @ [PublishStatus
                    (if status l = LIVEACTION_STATUS_SCHEDULED then l
                     else l\<lparr>status := LIVEACTION_STATUS_SCHEDULED, status_is_constant := True\<rparr>),
                  QueueDelete item]
               @ after
         \<and> status (if status l = LIVEACTION_STATUS_SCHEDULED then l
                    else l\<lparr>status := LIVEACTION_STATUS_SCHEDULED, status_is_constant := True\<rparr>)
             = LIVEACTION_STATUS_SCHEDULED
         \<and> \<not> list_ex is_QueueDelete before \<and> \<not> list_ex is_QueueDelete after
         \<and> \<not> list_ex is_PublishStatus before \<and> \<not> list_ex is_PublishStatus after"
proof -
  let ?s = "LIVEACTION_STATUS_SCHEDULED"
  show ?thesis
    apply (rule exI [of _ "[LOG (INFO_scheduling_liveaction (liveaction_id item) (item_id item)),
            LOG (INFO_status_pre_run (liveaction_ident l) (status l) (item_id item)),
            LOG (INFO_status_update_to_scheduled_1 (liveaction_ident l) (status l) (item_id item))]
           @ (if status l = ?s then [] else [UpdateStatus l ?s False])"])
    apply (rule exI [of _ "[LOG (INFO_status_update_to_scheduled_2 (liveaction_ident l) ?s (item_id item))]"])
    using assms(3)
      handle_execution_schedule_path [where apply_pre_run_policies = apply_pre_run_policies
        and ?l0.0 = l0 and now = now, OF assms]
    by (auto simp add: update_to_scheduled_trace)
qed

text \<open>
  The schedule path on the example: the claimed item, its live action in status
  \<open>requested\<close>, no policy.
\<close>

theorem publish_before_delete_witness:
  "get_liveaction_by_id (liveaction_id claimed_item) (claimed_world LIVEACTION_STATUS_REQUESTED)
     = Inr (example_liveaction LIVEACTION_STATUS_REQUESTED)
   \<and> trace (snd (handle_execution example_constants no_policy 2000 claimed_item
                    (claimed_world LIVEACTION_STATUS_REQUESTED)))
       = [LOG (INFO_scheduling_liveaction 7 1),
          LOG (INFO_status_pre_run 7 LIVEACTION_STATUS_REQUESTED 1),
          LOG (INFO_status_update_to_scheduled_1 7 LIVEACTION_STATUS_REQUESTED 1),
          UpdateStatus (example_liveaction LIVEACTION_STATUS_REQUESTED)
            LIVEACTION_STATUS_SCHEDULED False,
          PublishStatus ((example_liveaction LIVEACTION_STATUS_SCHEDULED)
                           \<lparr>status_is_constant := True\<rparr>),
          QueueDelete claimed_item,
          LOG (INFO_status_update_to_scheduled_2 7 LIVEACTION_STATUS_SCHEDULED 1)]
   \<and> (\<exists>before after.
         trace (snd (handle_execution example_constants no_policy 2000 claimed_item
                       (claimed_world LIVEACTION_STATUS_REQUESTED))) =
           trace (claimed_world LIVEACTION_STATUS_REQUESTED) @ before
             @ [PublishStatus
                  (if status (example_liveaction LIVEACTION_STATUS_REQUESTED)
                        = LIVEACTION_STATUS_SCHEDULED
                   then example_liveaction LIVEACTION_STATUS_REQUESTED
                   else (example_liveaction LIVEACTION_STATUS_REQUESTED)
                          \<lparr>status := LIVEACTION_STATUS_SCHEDULED, status_is_constant := True\<rparr>),
                QueueDelete claimed_item]
             @ after
       \<and> status (if status (example_liveaction LIVEACTION_STATUS_REQUESTED)
                        = LIVEACTION_STATUS_SCHEDULED
                  then example_liveaction LIVEACTION_STATUS_REQUESTED
                  else (example_liveaction LIVEACTION_STATUS_REQUESTED)
                         \<lparr>status := LIVEACTION_STATUS_SCHEDULED, status_is_constant := True\<rparr>)
           = LIVEACTION_STATUS_SCHEDULED
       \<and> \<not> list_ex is_QueueDelete before \<and> \<not> list_ex is_QueueDelete after
       \<and> \<not> list_ex is_PublishStatus before \<and> \<not> list_ex is_PublishStatus after)"
proof -
  let ?l = "example_liveaction LIVEACTION_STATUS_REQUESTED"
  let ?w = "claimed_world LIVEACTION_STATUS_REQUESTED"
  have found: "get_liveaction_by_id (liveaction_id claimed_item) ?w = Inr ?l"
    by (simp add: example_defs get_liveaction_by_id_def)
  have policy: "no_policy ?l (liveactions ?w) = (?l, liveactions ?w)"
    by (simp add: no_policy_def)
  have runnable: "status ?l \<in> {LIVEACTION_STATUS_REQUESTED, LIVEACTION_STATUS_SCHEDULED,
                                LIVEACTION_STATUS_DELAYED}"
    by (simp add: example_defs)
  have live: "status ?l \<notin> set (LIVEACTION_COMPLETED_STATES example_constants)"
             "status ?l \<notin> set (LIVEACTION_CANCEL_STATES example_constants)"
    by (simp_all add: example_defs)
  note t = publish_before_delete [where apply_pre_run_policies = no_policy and ?l0.0 = ?l and now = 2000,
      OF found policy runnable live]
  have run: "trace (snd (handle_execution example_constants no_policy 2000 claimed_item ?w))
       = [LOG (INFO_scheduling_liveaction 7 1),
          LOG (INFO_status_pre_run 7 LIVEACTION_STATUS_REQUESTED 1),
          LOG (INFO_status_update_to_scheduled_1 7 LIVEACTION_STATUS_REQUESTED 1),
          UpdateStatus ?l LIVEACTION_STATUS_SCHEDULED False,
          PublishStatus ((example_liveaction LIVEACTION_STATUS_SCHEDULED)
                           \<lparr>status_is_constant := True\<rparr>),
          QueueDelete claimed_item,
          LOG (INFO_status_update_to_scheduled_2 7 LIVEACTION_STATUS_SCHEDULED 1)]"
    by (simp add: example_defs model_defs Let_def)
  from found run t show ?thesis
    by (intro conjI)
qed

subsection \<open>Claiming an item\<close>

text \<open>
  Claim C3: a claim attempt flips \<open>handling\<close> to true through \<open>add_or_update\<close>; it either
  succeeds, and the claimant goes on to dispatch, or fails with a write conflict, and then
  no item is returned, no worker is spawned and the store is left as it was; for one
  revision of an item at most one claimant succeeds.

  The attempt is on the item \<open>i\<close> the query returned; \<open>others\<close> is what other schedulers did
  to the queue since the query. On success the item is returned, one worker is spawned
  for it, and from then on, whatever store calls follow, a write of any claimant that
  holds revision \<open>revision i\<close> of that item conflicts; so a second scheduler that read the
  same queue gets nothing. On a conflict nothing is returned, the queue is the one the
  others left, and no write and no spawn is in the trace.
\<close>

theorem claim_succeeds_or_conflicts:
  assumes "next_execution_query now (queue w) = Some i"
  shows "case add_or_update (i\<lparr>handling := True\<rparr>) False (w\<lparr>queue := others (queue w)\<rparr>) of
           Inr (item, w') \<Rightarrow>
             get_next_execution now others w = (Some item, w')
           \<and> run_iteration now others w = emit (Spawn item) w'
           \<and> (\<forall>cs claimant publish.
                 item_id claimant = item_id i \<and> revision claimant = revision i \<longrightarrow>
                 add_or_update claimant publish (store_calls cs w')
                   = Inl StackStormDBObjectWriteConflictError)
           \<and> (\<forall>cs. fst (get_next_execution now (\<lambda>q. queue (store_calls cs w')) w) = None)
         | Inl StackStormDBObjectWriteConflictError \<Rightarrow>
             get_next_execution now others w =
               (None, emit (LOG (INFO_item_handled_by_another_scheduler (item_id i)))
                        (w\<lparr>queue := others (queue w)\<rparr>))
           \<and> queue (snd (get_next_execution now others w)) = others (queue w)
           \<and> run_iteration now others w = snd (get_next_execution now others w)
           \<and> \<not> list_ex is_Spawn (drop (length (trace w)) (trace (run_iteration now others w)))
           \<and> \<not> list_ex is_QueueWrite (drop (length (trace w)) (trace (run_iteration now others w)))"
proof (cases "add_or_update (i\<lparr>handling := True\<rparr>) False (w\<lparr>queue := others (queue w)\<rparr>)")
  case (Inl e)
  then have e: "add_or_update (i\<lparr>handling := True\<rparr>) False (w\<lparr>queue := others (queue w)\<rparr>)
                 = Inl StackStormDBObjectWriteConflictError"
    by (cases e) simp
  have g: "get_next_execution now others w =
               (None, emit (LOG (INFO_item_handled_by_another_scheduler (item_id i)))
                        (w\<lparr>queue := others (queue w)\<rparr>))"
    by (simp add: get_next_execution_def assms e)
  show ?thesis
    by (simp add: e g run_iteration_def)
next
  case (Inr p)
  obtain item w' where p: "p = (item, w')"
    by (cases p)
  note ok = Inr [unfolded p]
  have g: "get_next_execution now others w = (Some item, w')"
    by (simp add: get_next_execution_def assms ok)
  have newer: "\<forall>x\<in>set (queue w'). item_id x = item_id i \<longrightarrow> revision i < revision x"
    using add_or_update_newer [OF ok] by simp
  have stale: "add_or_update claimant publish v = Inl StackStormDBObjectWriteConflictError"
    if "item_id claimant = item_id i" "revision claimant = revision i"
       "queue v = queue (store_calls cs w')" for claimant publish cs v
  proof (rule add_or_update_stale)
    show "\<forall>x\<in>set (queue v). item_id x = item_id claimant \<longrightarrow> revision claimant < revision x"
      using store_calls_keep_newer [OF newer, of cs] that by simp
  qed
  have second: "fst (get_next_execution now (\<lambda>q. queue (store_calls cs w')) w) = None" for cs
    using stale [of "i\<lparr>handling := True\<rparr>" "w\<lparr>queue := queue (store_calls cs w')\<rparr>" cs False]
    by (simp add: get_next_execution_def assms)
  show ?thesis
    using stale second by (simp add: ok g run_iteration_def)
qed

text \<open>
  Both outcomes on the example. With no interference the claim succeeds, the worker is
  spawned, a later write of the revision that was read conflicts, and a second scheduler
  that read the same queue gets nothing. With another scheduler's claim in between the
  write conflicts and nothing is spawned.
\<close>

theorem claim_succeeds_or_conflicts_witness:
  "next_execution_query 2000 (queue (example_world LIVEACTION_STATUS_REQUESTED))
     = Some example_item
   \<and> get_next_execution 2000 (\<lambda>q. q) (example_world LIVEACTION_STATUS_REQUESTED)
       = (Some claimed_item,
          (claimed_world LIVEACTION_STATUS_REQUESTED)\<lparr>trace := [QueueWrite claimed_item]\<rparr>)
   \<and> run_iteration 2000 (\<lambda>q. q) (example_world LIVEACTION_STATUS_REQUESTED)
       = emit (Spawn claimed_item)
           ((claimed_world LIVEACTION_STATUS_REQUESTED)\<lparr>trace := [QueueWrite claimed_item]\<rparr>)
   \<and> add_or_update (example_item\<lparr>handling := True\<rparr>) False
         (store_calls [AddOrUpdate (claimed_item\<lparr>handling := False\<rparr>) False]
            ((claimed_world LIVEACTION_STATUS_REQUESTED)\<lparr>trace := [QueueWrite claimed_item]\<rparr>))
       = Inl StackStormDBObjectWriteConflictError
   \<and> fst (get_next_execution 2000
            (\<lambda>q. queue (store_calls []
               ((claimed_world LIVEACTION_STATUS_REQUESTED)\<lparr>trace := [QueueWrite claimed_item]\<rparr>)))
            (example_world LIVEACTION_STATUS_REQUESTED)) = None
   \<and> get_next_execution 2000 (\<lambda>q. [claimed_item]) (example_world LIVEACTION_STATUS_REQUESTED)
       = (None, emit (LOG (INFO_item_handled_by_another_scheduler (item_id example_item)))
                  ((example_world LIVEACTION_STATUS_REQUESTED)\<lparr>queue := [claimed_item]\<rparr>))
   \<and> \<not> list_ex is_Spawn
         (drop (length (trace (example_world LIVEACTION_STATUS_REQUESTED)))
            (trace (run_iteration 2000 (\<lambda>q. [claimed_item])
                      (example_world LIVEACTION_STATUS_REQUESTED))))"
proof -
  let ?w = "example_world LIVEACTION_STATUS_REQUESTED"
  let ?w1 = "(claimed_world LIVEACTION_STATUS_REQUESTED)\<lparr>trace := [QueueWrite claimed_item]\<rparr>"
  have ready: "next_execution_query 2000 (queue ?w) = Some example_item"
    by (simp add: example_defs model_defs)
  have won: "add_or_update (example_item\<lparr>handling := True\<rparr>) False
               (?w\<lparr>queue := queue ?w\<rparr>) = Inr (claimed_item, ?w1)"
    by (simp add: example_defs model_defs Let_def)
  have lost: "add_or_update (example_item\<lparr>handling := True\<rparr>) False
               (?w\<lparr>queue := [claimed_item]\<rparr>) = Inl StackStormDBObjectWriteConflictError"
    by (simp add: example_defs model_defs Let_def)
  note a = claim_succeeds_or_conflicts [OF ready, of "\<lambda>q. q", unfolded won sum.case prod.case]
  note b = claim_succeeds_or_conflicts [OF ready, of "\<lambda>q. [claimed_item]", unfolded lost sum.case write_error.case]
  have same: "item_id (example_item\<lparr>handling := True\<rparr>) = item_id example_item
            \<and> revision (example_item\<lparr>handling := True\<rparr>) = revision example_item"
    by simp
  have p2: "get_next_execution 2000 (\<lambda>q. q) ?w = (Some claimed_item, ?w1)"
    using a by (rule conjunct1)
  have p3: "run_iteration 2000 (\<lambda>q. q) ?w = emit (Spawn claimed_item) ?w1"
    using a by blast
  have p4: "add_or_update (example_item\<lparr>handling := True\<rparr>) False
         (store_calls [AddOrUpdate (claimed_item\<lparr>handling := False\<rparr>) False] ?w1)
       = Inl StackStormDBObjectWriteConflictError"
    using a same by blast
  have p5: "fst (get_next_execution 2000 (\<lambda>q. queue (store_calls [] ?w1)) ?w) = None"
    using a by blast
  have p6: "get_next_execution 2000 (\<lambda>q. [claimed_item]) ?w
       = (None, emit (LOG (INFO_item_handled_by_another_scheduler (item_id example_item)))
                  (?w\<lparr>queue := [claimed_item]\<rparr>))"
    using b by (rule conjunct1)
  have p7: "\<not> list_ex is_Spawn
         (drop (length (trace ?w)) (trace (run_iteration 2000 (\<lambda>q. [claimed_item]) ?w)))"
    using b by blast
  from ready p2 p3 p4 p5 p6 p7 show ?thesis
    by (intro conjI)
qed

subsection \<open>A missing live action\<close>

text \<open>
  Claim C4: when the lookup of the live action fails with not-found, the worker deletes
  the queue item, publishes no status, raises the error again to the instrumentation
  around the dispatch, and later ticks do not retry the item.

  The result of the worker is the error; the queue lost every item of that id; the live
  actions are untouched; the worker added two log lines and the delete to the trace,
  nothing else. Later ticks: whatever the clock readings, as long as no other party puts
  an item of that id back into the queue, the claim loop spawns no worker for that id.
\<close>

theorem not_found_deletes_item:
  assumes "get_liveaction_by_id (liveaction_id item) w = Inl StackStormDBObjectNotFoundError"
  shows "fst (handle_execution ac apply_pre_run_policies now item w)
           = Inl StackStormDBObjectNotFoundError
       \<and> queue (snd (handle_execution ac apply_pre_run_policies now item w))
           = filter (\<lambda>x. item_id x \<noteq> item_id item) (queue w)
       \<and> liveactions (snd (handle_execution ac apply_pre_run_policies now item w))
           = liveactions w
       \<and> drop (length (trace w)) (trace (snd (handle_execution ac apply_pre_run_policies now item w)))
           = [LOG (INFO_scheduling_liveaction (liveaction_id item) (item_id item)),
              LOG (EXCEPTION_failed_to_find_liveaction (liveaction_id item) (item_id item)),
              QueueDelete item]
       \<and> (\<forall>ticks.
             (\<forall>tick\<in>set ticks.
                \<forall>q. item_id item \<notin> item_id ` set q \<longrightarrow> item_id item \<notin> item_id ` set (snd tick q)) \<longrightarrow>
             (\<forall>x. Spawn x \<in> set (drop (length (trace (snd (handle_execution ac apply_pre_run_policies now item w))))
                                 (trace (run_loop ticks (snd (handle_execution ac apply_pre_run_policies now item w)))))
                  \<longrightarrow> item_id x \<noteq> item_id item))"
proof -
  let ?w' = "snd (handle_execution ac apply_pre_run_policies now item w)"
  note h = handle_execution_not_found [OF assms, of ac apply_pre_run_policies now]
  have absent: "item_id item \<notin> item_id ` set (queue ?w')"
    by (auto simp add: h)
  have later: "\<forall>x. Spawn x \<in> set (drop (length (trace ?w')) (trace (run_loop ticks ?w')))
                  \<longrightarrow> item_id x \<noteq> item_id item"
    if "\<forall>tick\<in>set ticks.
          \<forall>q. item_id item \<notin> item_id ` set q \<longrightarrow> item_id item \<notin> item_id ` set (snd tick q)"
    for ticks
  proof -
    from run_loop_absent [OF absent that]
    obtain es where "trace (run_loop ticks ?w') = trace ?w' @ es"
      and "\<forall>x. Spawn x \<in> set es \<longrightarrow> item_id x \<noteq> item_id item"
      by blast
    then show ?thesis
      by simp
  qed
  have "fst (handle_execution ac apply_pre_run_policies now item w)
           = Inl StackStormDBObjectNotFoundError"
    by (simp add: h)
  moreover have "queue ?w' = filter (\<lambda>x. item_id x \<noteq> item_id item) (queue w)"
    by (simp add: h)
  moreover have "liveactions ?w' = liveactions w"
    by (simp add: h)
  moreover have "drop (length (trace w)) (trace ?w')
           = [LOG (INFO_scheduling_liveaction (liveaction_id item) (item_id item)),
              LOG (EXCEPTION_failed_to_find_liveaction (liveaction_id item) (item_id item)),
              QueueDelete item]"
    by (simp add: h)
  ultimately show ?thesis
    using later by blast
qed

text \<open>
  The claimed item of the example with no live action stored: the worker fails, the queue
  is empty afterwards, and two later ticks of the claim loop spawn nothing.
\<close>

theorem not_found_deletes_item_witness:
  "get_liveaction_by_id (liveaction_id claimed_item) orphan_world
     = Inl StackStormDBObjectNotFoundError
   \<and> fst (handle_execution example_constants no_policy 2000 claimed_item orphan_world)
       = Inl StackStormDBObjectNotFoundError
   \<and> queue (snd (handle_execution example_constants no_policy 2000 claimed_item orphan_world))
       = []
   \<and> drop (length (trace orphan_world))
         (trace (snd (handle_execution example_constants no_policy 2000 claimed_item orphan_world)))
       = [LOG (INFO_scheduling_liveaction (liveaction_id claimed_item) (item_id claimed_item)),
          LOG (EXCEPTION_failed_to_find_liveaction (liveaction_id claimed_item)
                 (item_id claimed_item)),
          QueueDelete claimed_item]
   \<and> \<not> list_ex is_Spawn
         (trace (run_loop [(3000, \<lambda>q. q), (70000, \<lambda>q. q)]
                   (snd (handle_execution example_constants no_policy 2000 claimed_item
                           orphan_world))))"
proof -
  let ?w' = "snd (handle_execution example_constants no_policy 2000 claimed_item orphan_world)"
  have missing: "get_liveaction_by_id (liveaction_id claimed_item) orphan_world
                   = Inl StackStormDBObjectNotFoundError"
    by (simp add: example_defs orphan_world_def get_liveaction_by_id_def)
  note t = not_found_deletes_item [OF missing, of example_constants no_policy 2000]
  have p2: "fst (handle_execution example_constants no_policy 2000 claimed_item orphan_world)
              = Inl StackStormDBObjectNotFoundError"
    using t by (rule conjunct1)
  have "queue ?w' = filter (\<lambda>x. item_id x \<noteq> item_id claimed_item) (queue orphan_world)"
    using t by blast
  then have p3: "queue ?w' = []"
    by (simp add: orphan_world_def)
  have p4: "drop (length (trace orphan_world)) (trace ?w')
       = [LOG (INFO_scheduling_liveaction (liveaction_id claimed_item) (item_id claimed_item)),
          LOG (EXCEPTION_failed_to_find_liveaction (liveaction_id claimed_item)
                 (item_id claimed_item)),
          QueueDelete claimed_item]"
    using t by blast
  have p5: "\<not> list_ex is_Spawn (trace (run_loop [(3000, \<lambda>q. q), (70000, \<lambda>q. q)] ?w'))"
    using p3 p4
    by (simp add: run_iteration_def get_next_execution_def next_execution_query_def query_def
          order_by_scheduled_start_timestamp_def limit_def first_def orphan_world_def)
  from missing p2 p3 p4 p5 show ?thesis
    by (intro conjI)
qed

subsection \<open>The query for the next item\<close>

text \<open>
  Claim C5: for every store and every time \<open>now\<close> the query of the claim loop returns the
  item with the smallest start time among those with \<open>handling = False\<close> and a start time
  at most \<open>now\<close>, never one that is later than \<open>now\<close> or being handled, and none when no
  item qualifies.

  The second part ties the query to \<^verbatim>\<open>_get_next_execution\<close>: an item it returns is the
  one its query found, claimed.
\<close>

theorem next_execution_query_earliest_ready:
  "(case next_execution_query now q of
      None \<Rightarrow> \<forall>x\<in>set q. handling x \<or> now < scheduled_start_timestamp x
    | Some i \<Rightarrow>
        i \<in> set q \<and> \<not> handling i \<and> scheduled_start_timestamp i \<le> now
      \<and> (\<forall>x\<in>set q. \<not> handling x \<and> scheduled_start_timestamp x \<le> now \<longrightarrow>
             scheduled_start_timestamp i \<le> scheduled_start_timestamp x))
   \<and> (case get_next_execution now others \<lparr>queue = q, liveactions = las, trace = t\<rparr> of
        (None, w') \<Rightarrow> True
      | (Some item, w') \<Rightarrow>
          (\<exists>i. next_execution_query now q = Some i
               \<and> item = i\<lparr>handling := True, revision := revision i + 1\<rparr>))"
proof (rule conjI)
  show "case next_execution_query now q of
      None \<Rightarrow> \<forall>x\<in>set q. handling x \<or> now < scheduled_start_timestamp x
    | Some i \<Rightarrow>
        i \<in> set q \<and> \<not> handling i \<and> scheduled_start_timestamp i \<le> now
      \<and> (\<forall>x\<in>set q. \<not> handling x \<and> scheduled_start_timestamp x \<le> now \<longrightarrow>
             scheduled_start_timestamp i \<le> scheduled_start_timestamp x)"
  proof (cases "next_execution_query now q")
    case None
    then have "set (query now False q) = {}"
      by (simp add: next_execution_query_None)
    then show ?thesis
      using None by (auto simp add: query_set)
  next
    case (Some i)
    have "i \<in> set (query now False q)"
      using next_execution_query_mem [OF Some] .
    moreover have "\<forall>x\<in>set (query now False q).
                     scheduled_start_timestamp i \<le> scheduled_start_timestamp x"
      using next_execution_query_least [OF Some] by blast
    ultimately show ?thesis
      using Some by (simp add: query_set)
  qed
next
  let ?w = "\<lparr>queue = q, liveactions = las, trace = t\<rparr>"
  show "case get_next_execution now others ?w of
        (None, w') \<Rightarrow> True
      | (Some item, w') \<Rightarrow>
          (\<exists>i. next_execution_query now q = Some i
               \<and> item = i\<lparr>handling := True, revision := revision i + 1\<rparr>)"
  proof (cases "get_next_execution now others ?w")
    case (Pair r w')
    show ?thesis
    proof (cases r)
      case None
      then show ?thesis using Pair by simp
    next
      case (Some item)
      obtain i where i: "next_execution_query now (queue ?w) = Some i"
        and ok: "add_or_update (i\<lparr>handling := True\<rparr>) False (?w\<lparr>queue := others (queue ?w)\<rparr>)
                 = Inr (item, w')"
        using get_next_execution_Some [OF Pair [unfolded Some]] by blast
      have "item = i\<lparr>handling := True, revision := revision i + 1\<rparr>"
        using add_or_update_Inr(1) [OF ok] by simp
      then show ?thesis
        using Pair Some i by simp
    qed
  qed
qed

text \<open>
  A queue of four items at time 2000: one ready and due at 1500, one ready and due at 1000,
  one due at 500 and being handled, one due at 5000. The query returns the one due at
  1000. At time 400 nothing is ready.
\<close>

theorem next_execution_query_earliest_ready_witness:
  "next_execution_query 2000 example_queue = Some example_item
   \<and> example_item \<in> set example_queue
   \<and> \<not> handling example_item
   \<and> scheduled_start_timestamp example_item \<le> 2000
   \<and> scheduled_start_timestamp example_item
       \<le> scheduled_start_timestamp (example_item\<lparr>item_id := 2, scheduled_start_timestamp := 1500\<rparr>)
   \<and> next_execution_query 400 example_queue = None
   \<and> handling (example_item\<lparr>item_id := 3, scheduled_start_timestamp := 500, handling := True\<rparr>)
   \<and> 400 < scheduled_start_timestamp example_item"
proof -
  let ?second = "example_item\<lparr>item_id := 2, scheduled_start_timestamp := 1500\<rparr>"
  have ready: "next_execution_query 2000 example_queue = Some example_item"
    by (simp add: example_queue_def example_defs model_defs)
  have none: "next_execution_query 400 example_queue = None"
    by (simp add: example_queue_def example_defs model_defs)
  note a = next_execution_query_earliest_ready [where now = 2000 and q = example_queue, unfolded ready option.case, THEN conjunct1]
  note b = next_execution_query_earliest_ready [where now = 400 and q = example_queue, unfolded none option.case, THEN conjunct1]
  have mem: "?second \<in> set example_queue" "example_item \<in> set example_queue"
    by (simp_all add: example_queue_def)
  have second: "\<not> handling ?second \<and> scheduled_start_timestamp ?second \<le> 2000"
    by (simp add: example_defs)
  have p2: "example_item \<in> set example_queue"
    and p3: "\<not> handling example_item"
    and p4: "scheduled_start_timestamp example_item \<le> 2000"
    using a by blast+
  have p5: "scheduled_start_timestamp example_item \<le> scheduled_start_timestamp ?second"
    using a mem(1) second by blast
  have "handling example_item \<or> 400 < scheduled_start_timestamp example_item"
    using b mem(2) by blast
  with p3 have p8: "400 < scheduled_start_timestamp example_item"
    by blast
  have p7: "handling (example_item\<lparr>item_id := 3, scheduled_start_timestamp := 500, handling := True\<rparr>)"
    by simp
  from ready p2 p3 p4 p5 none p7 p8 show ?thesis
    by (intro conjI)
qed

subsection \<open>Garbage collection\<close>

text \<open>
  Claim C6: in a garbage-collection tick at time \<open>now\<close>, every item with \<open>handling = True\<close>
  whose last update is at least 60000 ms old is reset, every item updated more recently
  is left alone, and a write conflict on one item does not stop the others from being
  reset.

  The code does not look at the time of the last update (a queue item has none); the
  query compares \<^verbatim>\<open>scheduled_start_timestamp\<close> with \<open>now - 60000\<close>. Run on the example:
  an item due at 1000 is claimed at 100000, so its last update is at 100000; the garbage
  collection one millisecond later resets it, and the next claim loop claims it a second
  time while the first worker still holds it. In the other direction, the claimed item
  that a policy delay at 3501 wrote back due at 5001 is still claimed after the garbage
  collection at 65000, more than 61 seconds after its last update.
\<close>

theorem gc_resets_fresh_claim:
  "(case get_next_execution 100000 (\<lambda>q. q) (example_world LIVEACTION_STATUS_REQUESTED) of
      (None, w1) \<Rightarrow> False
    | (Some item, w1) \<Rightarrow>
        item = claimed_item \<and> queue w1 = [claimed_item]
      \<and> queue (handle_garbage_collection 100001 (\<lambda>q. q) w1)
          = [claimed_item\<lparr>handling := False, revision := 2\<rparr>]
      \<and> fst (get_next_execution 100002 (\<lambda>q. q)
                (handle_garbage_collection 100001 (\<lambda>q. q) w1))
          = Some (claimed_item\<lparr>revision := 3\<rparr>))
   \<and> (case handle_execution example_constants (status_policy LIVEACTION_STATUS_POLICY_DELAYED)
             3501 claimed_item (claimed_world LIVEACTION_STATUS_REQUESTED) of
        (r, w2) \<Rightarrow>
          queue w2 = [claimed_item\<lparr>scheduled_start_timestamp := 5001, revision := 2\<rparr>]
        \<and> queue (handle_garbage_collection 65000 (\<lambda>q. q) w2) = queue w2)"
  by (simp add: example_defs model_defs Let_def)

subsection \<open>Items that are not runnable\<close>

text \<open>
  Claim C7: when the status after the policies is in the completed or the cancel set, or
  is outside \<open>requested\<close>, \<open>scheduled\<close>, \<open>delayed\<close>, and is not \<open>policy_delayed\<close>, the queue
  item is deleted and the worker ends without updating the status of the live action and
  without publishing a scheduled status.

  The worker returns normally; the queue lost every item of that id; the live actions are
  as the policy service left them; apart from log lines the worker added the delete to
  the trace and nothing else, and the delete is the last thing it did.
\<close>

theorem non_runnable_item_dropped:
  assumes "get_liveaction_by_id (liveaction_id item) w = Inr l0"
      and "apply_pre_run_policies l0 (liveactions w) = (l, las)"
      and "status l \<noteq> LIVEACTION_STATUS_POLICY_DELAYED"
      and "status l \<in> set (LIVEACTION_COMPLETED_STATES ac)
           \<or> status l \<in> set (LIVEACTION_CANCEL_STATES ac)
           \<or> status l \<notin> {LIVEACTION_STATUS_REQUESTED, LIVEACTION_STATUS_SCHEDULED,
                             LIVEACTION_STATUS_DELAYED}"
  shows "fst (handle_execution ac apply_pre_run_policies now item w) = Inr ()
       \<and> queue (snd (handle_execution ac apply_pre_run_policies now item w))
           = filter (\<lambda>x. item_id x \<noteq> item_id item) (queue w)
       \<and> liveactions (snd (handle_execution ac apply_pre_run_policies now item w)) = las
       \<and> (let es = drop (length (trace w))
                      (trace (snd (handle_execution ac apply_pre_run_policies now item w)))
          in filter (\<lambda>e. \<not> is_LOG e) es = [QueueDelete item]
             \<and> last es = QueueDelete item)"
proof (cases "status l \<in> set (LIVEACTION_COMPLETED_STATES ac)
           \<or> status l \<in> set (LIVEACTION_CANCEL_STATES ac)")
  case True
  let ?w1 = "emit (LOG (INFO_scheduling_liveaction (liveaction_id item) (item_id item))) w"
  have "apply_pre_run ac apply_pre_run_policies now l0 item ?w1 =
           (None, item,
            delete item
              (emit (LOG (INFO_status_pre_run (liveaction_ident l) (status l) (item_id item)))
                 (?w1\<lparr>liveactions := las\<rparr>)))"
    by (rule apply_pre_run_drop) (use assms True in simp_all)
  then show ?thesis
    by (simp add: handle_execution_def Let_def assms(1))
next
  case False
  let ?w1 = "emit (LOG (INFO_scheduling_liveaction (liveaction_id item) (item_id item))) w"
  have pre: "apply_pre_run ac apply_pre_run_policies now l0 item ?w1 =
           (Some l, item,
            emit (LOG (INFO_status_pre_run (liveaction_ident l) (status l) (item_id item)))
              (?w1\<lparr>liveactions := las\<rparr>))"
    by (rule apply_pre_run_pass) (use assms False in simp_all)
  have nv: "status l \<notin> {LIVEACTION_STATUS_REQUESTED, LIVEACTION_STATUS_SCHEDULED,
                             LIVEACTION_STATUS_DELAYED}"
    using assms(4) False by blast
  have run: "is_execution_queue_item_runnable l item w' =
               (False, delete item
                 (emit (LOG (INFO_ignoring_after_policies (item_id item) (status l))) w'))" for w'
    using nv by (simp add: is_execution_queue_item_runnable_def)
  show ?thesis
    by (simp add: handle_execution_def Let_def assms(1) pre run)
qed

text \<open>
  Two drops on the example: a live action that is \<open>canceled\<close>, and one that a policy put
  into a status the handler does not know.
\<close>

theorem non_runnable_item_dropped_witness:
  "get_liveaction_by_id (liveaction_id claimed_item) (claimed_world LIVEACTION_STATUS_CANCELED)
     = Inr (example_liveaction LIVEACTION_STATUS_CANCELED)
   \<and> status (example_liveaction LIVEACTION_STATUS_CANCELED)
       \<in> set (LIVEACTION_CANCEL_STATES example_constants)
   \<and> fst (handle_execution example_constants no_policy 2000 claimed_item
            (claimed_world LIVEACTION_STATUS_CANCELED)) = Inr ()
   \<and> queue (snd (handle_execution example_constants no_policy 2000 claimed_item
                   (claimed_world LIVEACTION_STATUS_CANCELED))) = []
   \<and> liveactions (snd (handle_execution example_constants no_policy 2000 claimed_item
                         (claimed_world LIVEACTION_STATUS_CANCELED)))
       = [example_document LIVEACTION_STATUS_CANCELED]
   \<and> (let es = drop (length (trace (claimed_world LIVEACTION_STATUS_CANCELED)))
                  (trace (snd (handle_execution example_constants no_policy 2000 claimed_item
                                 (claimed_world LIVEACTION_STATUS_CANCELED))))
       in filter (\<lambda>e. \<not> is_LOG e) es = [QueueDelete claimed_item]
          \<and> last es = QueueDelete claimed_item)
   \<and> status ((example_liveaction (LIVEACTION_STATUS_OTHER ''running''))
                \<lparr>status_is_constant := True\<rparr>)
       \<notin> {LIVEACTION_STATUS_REQUESTED, LIVEACTION_STATUS_SCHEDULED, LIVEACTION_STATUS_DELAYED}
   \<and> queue (snd (handle_execution example_constants
                   (status_policy (LIVEACTION_STATUS_OTHER ''running'')) 2000 claimed_item
                   (claimed_world LIVEACTION_STATUS_REQUESTED))) = []"
proof -
  let ?l = "example_liveaction LIVEACTION_STATUS_CANCELED"
  let ?w = "claimed_world LIVEACTION_STATUS_CANCELED"
  have found: "get_liveaction_by_id (liveaction_id claimed_item) ?w = Inr ?l"
    by (simp add: example_defs get_liveaction_by_id_def)
  have policy: "no_policy ?l (liveactions ?w)
                  = (?l, [example_document LIVEACTION_STATUS_CANCELED])"
    by (simp add: example_defs)
  have not_delayed: "status ?l \<noteq> LIVEACTION_STATUS_POLICY_DELAYED"
    by (simp add: example_defs)
  have cancel: "status ?l \<in> set (LIVEACTION_CANCEL_STATES example_constants)"
    by (simp add: example_defs)
  then have drop: "status ?l \<in> set (LIVEACTION_COMPLETED_STATES example_constants)
           \<or> status ?l \<in> set (LIVEACTION_CANCEL_STATES example_constants)
           \<or> status ?l \<notin> {LIVEACTION_STATUS_REQUESTED, LIVEACTION_STATUS_SCHEDULED,
                             LIVEACTION_STATUS_DELAYED}"
    by blast
  note t = non_runnable_item_dropped [where apply_pre_run_policies = no_policy and ?l0.0 = ?l and now = 2000
      and ac = example_constants, OF found policy not_delayed drop]
  have p3: "fst (handle_execution example_constants no_policy 2000 claimed_item ?w) = Inr ()"
    using t by (rule conjunct1)
  have "queue (snd (handle_execution example_constants no_policy 2000 claimed_item ?w))
          = filter (\<lambda>x. item_id x \<noteq> item_id claimed_item) (queue ?w)"
    using t by blast
  then have p4: "queue (snd (handle_execution example_constants no_policy 2000 claimed_item ?w))
                   = []"
    by (simp add: claimed_world_def)
  have p5: "liveactions (snd (handle_execution example_constants no_policy 2000 claimed_item ?w))
              = [example_document LIVEACTION_STATUS_CANCELED]"
    using t by blast
  have p6: "let es = drop (length (trace ?w))
                  (trace (snd (handle_execution example_constants no_policy 2000 claimed_item ?w)))
       in filter (\<lambda>e. \<not> is_LOG e) es = [QueueDelete claimed_item]
          \<and> last es = QueueDelete claimed_item"
    using t by blast
  let ?r = "(example_liveaction (LIVEACTION_STATUS_OTHER ''running''))
              \<lparr>status_is_constant := True\<rparr>"
  let ?v = "claimed_world LIVEACTION_STATUS_REQUESTED"
  let ?l0 = "example_liveaction LIVEACTION_STATUS_REQUESTED"
  have found': "get_liveaction_by_id (liveaction_id claimed_item) ?v = Inr ?l0"
    by (simp add: example_defs get_liveaction_by_id_def)
  have policy': "status_policy (LIVEACTION_STATUS_OTHER ''running'') ?l0 (liveactions ?v)
                   = (?r, [example_document LIVEACTION_STATUS_REQUESTED])"
    by (simp add: example_defs)
  have not_delayed': "status ?r \<noteq> LIVEACTION_STATUS_POLICY_DELAYED"
    by (simp add: example_defs)
  have p7: "status ?r \<notin> {LIVEACTION_STATUS_REQUESTED, LIVEACTION_STATUS_SCHEDULED,
                             LIVEACTION_STATUS_DELAYED}"
    by (simp add: example_defs)
  then have drop': "status ?r \<in> set (LIVEACTION_COMPLETED_STATES example_constants)
           \<or> status ?r \<in> set (LIVEACTION_CANCEL_STATES example_constants)
           \<or> status ?r \<notin> {LIVEACTION_STATUS_REQUESTED, LIVEACTION_STATUS_SCHEDULED,
                             LIVEACTION_STATUS_DELAYED}"
    by blast
  note t' = non_runnable_item_dropped [where apply_pre_run_policies = "status_policy (LIVEACTION_STATUS_OTHER ''running'')"
      and ?l0.0 = ?l0 and now = 2000 and ac = example_constants,
      OF found' policy' not_delayed' drop']
  have "queue (snd (handle_execution example_constants
                   (status_policy (LIVEACTION_STATUS_OTHER ''running'')) 2000 claimed_item ?v))
          = filter (\<lambda>x. item_id x \<noteq> item_id claimed_item) (queue ?v)"
    using t' by blast
  then have p8: "queue (snd (handle_execution example_constants
                   (status_policy (LIVEACTION_STATUS_OTHER ''running'')) 2000 claimed_item ?v))
                   = []"
    by (simp add: claimed_world_def)
  from found cancel p3 p4 p5 p6 p7 p8 show ?thesis
    by (intro conjI)
qed

subsection \<open>The transition to scheduled\<close>

text \<open>
  Claim C8: in the transition to scheduled, the status is updated to \<open>scheduled\<close> with
  \<^verbatim>\<open>publish=False\<close> if and only if it is \<open>requested\<close> or \<open>delayed\<close>; when it is already
  \<open>scheduled\<close> nothing is updated; the status is published exactly once on every
  successful schedule path either way.

  The first part is about \<^verbatim>\<open>_update_to_scheduled\<close> in any world: the updates and the
  publishes it adds to the trace. The second is the case of a status that is already
  \<open>scheduled\<close>. The third is the whole schedule path of \<^verbatim>\<open>_handle_execution\<close>.
\<close>

theorem update_to_scheduled_updates_iff_needed:
  "(let es = drop (length (trace w)) (trace (update_to_scheduled l item w)) in
      filter is_UpdateStatus es =
        (if status l = LIVEACTION_STATUS_REQUESTED \<or> status l = LIVEACTION_STATUS_DELAYED
         then [UpdateStatus l LIVEACTION_STATUS_SCHEDULED False] else [])
    \<and> filter is_PublishStatus es =
        [PublishStatus (if status l = LIVEACTION_STATUS_REQUESTED \<or> status l = LIVEACTION_STATUS_DELAYED
                        then l\<lparr>status := LIVEACTION_STATUS_SCHEDULED, status_is_constant := True\<rparr> else l)])
   \<and> (status l = LIVEACTION_STATUS_SCHEDULED \<longrightarrow>
        liveactions (update_to_scheduled l item w) = liveactions w)
   \<and> (get_liveaction_by_id (liveaction_id item) w = Inr l0
        \<and> apply_pre_run_policies l0 (liveactions w) = (l, las)
        \<and> status l \<in> {LIVEACTION_STATUS_REQUESTED, LIVEACTION_STATUS_SCHEDULED, LIVEACTION_STATUS_DELAYED}
        \<and> status l \<notin> set (LIVEACTION_COMPLETED_STATES ac)
        \<and> status l \<notin> set (LIVEACTION_CANCEL_STATES ac) \<longrightarrow>
        (let es = drop (length (trace w))
                    (trace (snd (handle_execution ac apply_pre_run_policies now item w))) in
           length (filter is_PublishStatus es) = 1
         \<and> filter is_UpdateStatus es =
             (if status l = LIVEACTION_STATUS_SCHEDULED then []
              else [UpdateStatus l LIVEACTION_STATUS_SCHEDULED False])))"
proof (intro conjI impI)
  show "let es = drop (length (trace w)) (trace (update_to_scheduled l item w)) in
      filter is_UpdateStatus es =
        (if status l = LIVEACTION_STATUS_REQUESTED \<or> status l = LIVEACTION_STATUS_DELAYED
         then [UpdateStatus l LIVEACTION_STATUS_SCHEDULED False] else [])
    \<and> filter is_PublishStatus es =
        [PublishStatus (if status l = LIVEACTION_STATUS_REQUESTED \<or> status l = LIVEACTION_STATUS_DELAYED
                        then l\<lparr>status := LIVEACTION_STATUS_SCHEDULED, status_is_constant := True\<rparr> else l)]"
    by (simp add: update_to_scheduled_trace)
next
  assume "status l = LIVEACTION_STATUS_SCHEDULED"
  then show "liveactions (update_to_scheduled l item w) = liveactions w"
    by (simp add: update_to_scheduled_liveactions)
next
  assume a: "get_liveaction_by_id (liveaction_id item) w = Inr l0
        \<and> apply_pre_run_policies l0 (liveactions w) = (l, las)
        \<and> status l \<in> {LIVEACTION_STATUS_REQUESTED, LIVEACTION_STATUS_SCHEDULED, LIVEACTION_STATUS_DELAYED}
        \<and> status l \<notin> set (LIVEACTION_COMPLETED_STATES ac)
        \<and> status l \<notin> set (LIVEACTION_CANCEL_STATES ac)"
  then have h: "handle_execution ac apply_pre_run_policies now item w =
           (Inr (),
            update_to_scheduled l item
              (emit (LOG (INFO_status_pre_run (liveaction_ident l) (status l) (item_id item)))
                (emit (LOG (INFO_scheduling_liveaction (liveaction_id item) (item_id item))) w
                   \<lparr>liveactions := las\<rparr>)))"
    using handle_execution_schedule_path [where apply_pre_run_policies = apply_pre_run_policies
        and ?l0.0 = l0 and l = l and las = las and w = w and item = item and ac = ac and now = now]
    by blast
  from a show "let es = drop (length (trace w))
                    (trace (snd (handle_execution ac apply_pre_run_policies now item w))) in
           length (filter is_PublishStatus es) = 1
         \<and> filter is_UpdateStatus es =
             (if status l = LIVEACTION_STATUS_SCHEDULED then []
              else [UpdateStatus l LIVEACTION_STATUS_SCHEDULED False])"
    by (auto simp add: h update_to_scheduled_trace)
qed

text \<open>
  The transition on the example from \<open>requested\<close> and from \<open>scheduled\<close>, and the whole
  schedule path from \<open>delayed\<close>.
\<close>

theorem update_to_scheduled_updates_iff_needed_witness:
  "(let es = drop (length (trace (claimed_world LIVEACTION_STATUS_REQUESTED)))
               (trace (update_to_scheduled (example_liveaction LIVEACTION_STATUS_REQUESTED)
                         claimed_item (claimed_world LIVEACTION_STATUS_REQUESTED)))
    in filter is_UpdateStatus es
         = [UpdateStatus (example_liveaction LIVEACTION_STATUS_REQUESTED)
              LIVEACTION_STATUS_SCHEDULED False]
       \<and> filter is_PublishStatus es
         = [PublishStatus ((example_liveaction LIVEACTION_STATUS_REQUESTED)
                             \<lparr>status := LIVEACTION_STATUS_SCHEDULED,
                                status_is_constant := True\<rparr>)])
   \<and> status (example_liveaction LIVEACTION_STATUS_SCHEDULED) = LIVEACTION_STATUS_SCHEDULED
   \<and> liveactions (update_to_scheduled (example_liveaction LIVEACTION_STATUS_SCHEDULED)
                    claimed_item (claimed_world LIVEACTION_STATUS_SCHEDULED))
       = liveactions (claimed_world LIVEACTION_STATUS_SCHEDULED)
   \<and> (let es = drop (length (trace (claimed_world LIVEACTION_STATUS_SCHEDULED)))
                  (trace (update_to_scheduled (example_liveaction LIVEACTION_STATUS_SCHEDULED)
                            claimed_item (claimed_world LIVEACTION_STATUS_SCHEDULED)))
       in filter is_UpdateStatus es = []
          \<and> filter is_PublishStatus es
            = [PublishStatus (example_liveaction LIVEACTION_STATUS_SCHEDULED)])
   \<and> get_liveaction_by_id (liveaction_id claimed_item) (claimed_world LIVEACTION_STATUS_DELAYED)
       = Inr (example_liveaction LIVEACTION_STATUS_DELAYED)
   \<and> (let es = drop (length (trace (claimed_world LIVEACTION_STATUS_DELAYED)))
                  (trace (snd (handle_execution example_constants no_policy 2000 claimed_item
                                 (claimed_world LIVEACTION_STATUS_DELAYED))))
       in length (filter is_PublishStatus es) = 1
          \<and> filter is_UpdateStatus es
            = [UpdateStatus (example_liveaction LIVEACTION_STATUS_DELAYED)
                 LIVEACTION_STATUS_SCHEDULED False])"
proof -
  let ?req = "example_liveaction LIVEACTION_STATUS_REQUESTED"
  let ?sch = "example_liveaction LIVEACTION_STATUS_SCHEDULED"
  let ?del = "example_liveaction LIVEACTION_STATUS_DELAYED"
  have sr: "status ?req = LIVEACTION_STATUS_REQUESTED \<or> status ?req = LIVEACTION_STATUS_DELAYED"
    by (simp add: example_defs)
  have ss: "status ?sch = LIVEACTION_STATUS_SCHEDULED"
    by (simp add: example_defs)
  then have ss': "\<not> (status ?sch = LIVEACTION_STATUS_REQUESTED
                      \<or> status ?sch = LIVEACTION_STATUS_DELAYED)"
    by simp
  have p1: "let es = drop (length (trace (claimed_world LIVEACTION_STATUS_REQUESTED)))
               (trace (update_to_scheduled ?req claimed_item
                         (claimed_world LIVEACTION_STATUS_REQUESTED)))
    in filter is_UpdateStatus es = [UpdateStatus ?req LIVEACTION_STATUS_SCHEDULED False]
       \<and> filter is_PublishStatus es
         = [PublishStatus (?req\<lparr>status := LIVEACTION_STATUS_SCHEDULED,
                                  status_is_constant := True\<rparr>)]"
    using update_to_scheduled_updates_iff_needed [where l = ?req and item = claimed_item
        and w = "claimed_world LIVEACTION_STATUS_REQUESTED", THEN conjunct1] sr
    by (simp only: if_True)
  note s = update_to_scheduled_updates_iff_needed [where l = ?sch and item = claimed_item
        and w = "claimed_world LIVEACTION_STATUS_SCHEDULED"]
  have p3: "liveactions (update_to_scheduled ?sch claimed_item
                           (claimed_world LIVEACTION_STATUS_SCHEDULED))
              = liveactions (claimed_world LIVEACTION_STATUS_SCHEDULED)"
    using s ss by blast
  have p4: "let es = drop (length (trace (claimed_world LIVEACTION_STATUS_SCHEDULED)))
                  (trace (update_to_scheduled ?sch claimed_item
                            (claimed_world LIVEACTION_STATUS_SCHEDULED)))
       in filter is_UpdateStatus es = []
          \<and> filter is_PublishStatus es = [PublishStatus ?sch]"
    using s [THEN conjunct1] ss'
    by (simp only: if_False)
  let ?w = "claimed_world LIVEACTION_STATUS_DELAYED"
  have found: "get_liveaction_by_id (liveaction_id claimed_item) ?w = Inr ?del"
    by (simp add: example_defs get_liveaction_by_id_def)
  have hyps: "get_liveaction_by_id (liveaction_id claimed_item) ?w = Inr ?del
        \<and> no_policy ?del (liveactions ?w)
            = (?del, [example_document LIVEACTION_STATUS_DELAYED])
        \<and> status ?del \<in> {LIVEACTION_STATUS_REQUESTED, LIVEACTION_STATUS_SCHEDULED,
                            LIVEACTION_STATUS_DELAYED}
        \<and> status ?del \<notin> set (LIVEACTION_COMPLETED_STATES example_constants)
        \<and> status ?del \<notin> set (LIVEACTION_CANCEL_STATES example_constants)"
    using found by (simp add: example_defs)
  have sd: "status ?del \<noteq> LIVEACTION_STATUS_SCHEDULED"
    by (simp add: example_defs)
  have "let es = drop (length (trace ?w))
                  (trace (snd (handle_execution example_constants no_policy 2000 claimed_item ?w)))
       in length (filter is_PublishStatus es) = 1
          \<and> filter is_UpdateStatus es
            = (if status ?del = LIVEACTION_STATUS_SCHEDULED then []
               else [UpdateStatus ?del LIVEACTION_STATUS_SCHEDULED False])"
    using update_to_scheduled_updates_iff_needed [where l = ?del and item = claimed_item and w = ?w and ?l0.0 = ?del
        and apply_pre_run_policies = no_policy
        and las = "[example_document LIVEACTION_STATUS_DELAYED]" and ac = example_constants
        and now = 2000] hyps
    by blast
  then have p6: "let es = drop (length (trace ?w))
                  (trace (snd (handle_execution example_constants no_policy 2000 claimed_item ?w)))
       in length (filter is_PublishStatus es) = 1
          \<and> filter is_UpdateStatus es = [UpdateStatus ?del LIVEACTION_STATUS_SCHEDULED False]"
    using sd by (simp only: if_False)
  from p1 ss p3 p4 found p6 show ?thesis
    by (intro conjI)
qed

subsection \<open>What the claim loop hands to a worker\<close>

text \<open>
  Claim C9: whenever \<^verbatim>\<open>_get_next_execution\<close> returns an item, and so whenever the claim
  loop spawns a worker for one, the compare-and-swap succeeded and the item stored in the
  queue has \<open>handling = True\<close>.

  First, from the return: the returned item is claimed, it is what the queue stores under
  its id (every stored item of that id is the returned one), the one thing added to the
  trace is the write of it, it is an unclaimed item of the queue the query read, claimed
  and with the next revision, and the claim loop spawns the worker for exactly this item.
  Second, from the spawn: a worker that one iteration of \<^verbatim>\<open>run\<close> spawns is for the item
  \<^verbatim>\<open>_get_next_execution\<close> returned, that item is claimed and stored, and the iteration did
  the write and the spawn and nothing else. Third, when nothing is returned nothing is
  spawned. Fourth, over any number of iterations every spawn is of a claimed item and
  stands right after the write of that item.
\<close>

theorem returned_item_is_claimed:
  "(get_next_execution now others w = (Some item, w') \<longrightarrow>
      handling item
    \<and> stored (item_id item) (queue w') = Some item
    \<and> (\<forall>x\<in>set (queue w'). item_id x = item_id item \<longrightarrow> x = item)
    \<and> drop (length (trace w)) (trace w') = [QueueWrite item]
    \<and> (\<exists>i\<in>set (queue w). \<not> handling i
          \<and> item = i\<lparr>handling := True, revision := revision i + 1\<rparr>)
    \<and> run_iteration now others w = emit (Spawn item) w')
   \<and> (\<forall>x. Spawn x \<in> set (drop (length (trace w)) (trace (run_iteration now others w))) \<longrightarrow>
          handling x
        \<and> stored (item_id x) (queue (run_iteration now others w)) = Some x
        \<and> drop (length (trace w)) (trace (run_iteration now others w))
            = [QueueWrite x, Spawn x]
        \<and> fst (get_next_execution now others w) = Some x)
   \<and> (fst (get_next_execution now others w) = None \<longrightarrow>
        \<not> list_ex is_Spawn (drop (length (trace w)) (trace (run_iteration now others w))))
   \<and> (\<forall>x. Spawn x \<in> set (drop (length (trace w)) (trace (run_loop ticks w))) \<longrightarrow>
          handling x
        \<and> (\<exists>before after.
              drop (length (trace w)) (trace (run_loop ticks w))
                = before @ [QueueWrite x, Spawn x] @ after))"
proof (intro conjI impI allI)
  assume g: "get_next_execution now others w = (Some item, w')"
  note c = get_next_execution_claimed [OF g]
  show "handling item"
    by (rule c(1))
  show "stored (item_id item) (queue w') = Some item"
    by (rule c(2))
  show "\<forall>x\<in>set (queue w'). item_id x = item_id item \<longrightarrow> x = item"
    by (rule c(3))
  show "drop (length (trace w)) (trace w') = [QueueWrite item]"
    by (rule c(4))
  show "\<exists>i\<in>set (queue w). \<not> handling i
          \<and> item = i\<lparr>handling := True, revision := revision i + 1\<rparr>"
    by (rule c(5))
  show "run_iteration now others w = emit (Spawn item) w'"
    by (simp add: run_iteration_def g)
next
  fix x
  assume s: "Spawn x \<in> set (drop (length (trace w)) (trace (run_iteration now others w)))"
  then obtain w' where g: "get_next_execution now others w = (Some x, w')"
    and r: "run_iteration now others w = emit (Spawn x) w'"
    and t: "trace w' = trace w @ [QueueWrite x]"
    using run_iteration_spawn by blast
  note c = get_next_execution_claimed [OF g]
  show "handling x"
    by (rule c(1))
  show "stored (item_id x) (queue (run_iteration now others w)) = Some x"
    using c(2) by (simp add: r)
  show "drop (length (trace w)) (trace (run_iteration now others w)) = [QueueWrite x, Spawn x]"
    by (simp add: r t)
  show "fst (get_next_execution now others w) = Some x"
    by (simp add: g)
next
  assume n: "fst (get_next_execution now others w) = None"
  from run_iteration_cases [of now others w]
  show "\<not> list_ex is_Spawn (drop (length (trace w)) (trace (run_iteration now others w)))"
    using n by auto
next
  fix x
  assume s: "Spawn x \<in> set (drop (length (trace w)) (trace (run_loop ticks w)))"
  obtain es where es: "trace (run_loop ticks w) = trace w @ es"
    and sp: "\<forall>x. Spawn x \<in> set es \<longrightarrow>
               handling x \<and> (\<exists>before after. es = before @ [QueueWrite x, Spawn x] @ after)"
    using run_loop_spawns [of ticks w] by blast
  have d: "drop (length (trace w)) (trace (run_loop ticks w)) = es"
    by (simp add: es)
  from s sp show "handling x"
    unfolding d by blast
  from s sp show "\<exists>before after.
              drop (length (trace w)) (trace (run_loop ticks w))
                = before @ [QueueWrite x, Spawn x] @ after"
    unfolding d by blast
qed

text \<open>
  The claim of the example item at time 2000, the idle iteration at time 400, and the
  two iterations in a row.
\<close>

theorem returned_item_is_claimed_witness:
  "get_next_execution 2000 (\<lambda>q. q) (example_world LIVEACTION_STATUS_REQUESTED)
     = (Some claimed_item,
        (claimed_world LIVEACTION_STATUS_REQUESTED)\<lparr>trace := [QueueWrite claimed_item]\<rparr>)
   \<and> handling claimed_item
   \<and> stored (item_id claimed_item)
        (queue ((claimed_world LIVEACTION_STATUS_REQUESTED)\<lparr>trace := [QueueWrite claimed_item]\<rparr>))
       = Some claimed_item
   \<and> run_iteration 2000 (\<lambda>q. q) (example_world LIVEACTION_STATUS_REQUESTED)
       = emit (Spawn claimed_item)
           ((claimed_world LIVEACTION_STATUS_REQUESTED)\<lparr>trace := [QueueWrite claimed_item]\<rparr>)
   \<and> Spawn claimed_item
       \<in> set (drop (length (trace (example_world LIVEACTION_STATUS_REQUESTED)))
                (trace (run_iteration 2000 (\<lambda>q. q) (example_world LIVEACTION_STATUS_REQUESTED))))
   \<and> stored (item_id claimed_item)
        (queue (run_iteration 2000 (\<lambda>q. q) (example_world LIVEACTION_STATUS_REQUESTED)))
       = Some claimed_item
   \<and> drop (length (trace (example_world LIVEACTION_STATUS_REQUESTED)))
        (trace (run_iteration 2000 (\<lambda>q. q) (example_world LIVEACTION_STATUS_REQUESTED)))
       = [QueueWrite claimed_item, Spawn claimed_item]
   \<and> fst (get_next_execution 400 (\<lambda>q. q) (example_world LIVEACTION_STATUS_REQUESTED)) = None
   \<and> \<not> list_ex is_Spawn
         (drop (length (trace (example_world LIVEACTION_STATUS_REQUESTED)))
            (trace (run_iteration 400 (\<lambda>q. q) (example_world LIVEACTION_STATUS_REQUESTED))))
   \<and> Spawn claimed_item
       \<in> set (drop (length (trace (example_world LIVEACTION_STATUS_REQUESTED)))
                (trace (run_loop [(400, \<lambda>q. q), (2000, \<lambda>q. q)]
                          (example_world LIVEACTION_STATUS_REQUESTED))))
   \<and> (\<exists>before after.
         drop (length (trace (example_world LIVEACTION_STATUS_REQUESTED)))
           (trace (run_loop [(400, \<lambda>q. q), (2000, \<lambda>q. q)]
                     (example_world LIVEACTION_STATUS_REQUESTED)))
           = before @ [QueueWrite claimed_item, Spawn claimed_item] @ after)"
proof -
  let ?w = "example_world LIVEACTION_STATUS_REQUESTED"
  let ?w1 = "(claimed_world LIVEACTION_STATUS_REQUESTED)\<lparr>trace := [QueueWrite claimed_item]\<rparr>"
  let ?ticks = "[(400, \<lambda>q. q), (2000, \<lambda>q. q)] :: (int \<times> interference) list"
  note claim = example_claim [of LIVEACTION_STATUS_REQUESTED]
  note t = returned_item_is_claimed [where now = 2000 and others = "\<lambda>q. q" and w = ?w and item = claimed_item
      and w' = ?w1 and ticks = ?ticks]
  note t1 = t [THEN conjunct1, rule_format, OF claim]
  have p2: "handling claimed_item"
    using t1 by (rule conjunct1)
  have p3: "stored (item_id claimed_item) (queue ?w1) = Some claimed_item"
    using t1 by blast
  have p4: "run_iteration 2000 (\<lambda>q. q) ?w = emit (Spawn claimed_item) ?w1"
    using t1 by blast
  have p5: "Spawn claimed_item
              \<in> set (drop (length (trace ?w)) (trace (run_iteration 2000 (\<lambda>q. q) ?w)))"
    unfolding p4 by (simp add: example_defs emit_def)
  note t2 = t [THEN conjunct2, THEN conjunct1, rule_format, OF p5]
  have p6: "stored (item_id claimed_item) (queue (run_iteration 2000 (\<lambda>q. q) ?w))
              = Some claimed_item"
    using t2 by blast
  have p7: "drop (length (trace ?w)) (trace (run_iteration 2000 (\<lambda>q. q) ?w))
              = [QueueWrite claimed_item, Spawn claimed_item]"
    using t2 by blast
  have p8: "fst (get_next_execution 400 (\<lambda>q. q) ?w) = None"
    by (simp add: example_defs model_defs)
  have p9: "\<not> list_ex is_Spawn
              (drop (length (trace ?w)) (trace (run_iteration 400 (\<lambda>q. q) ?w)))"
    using returned_item_is_claimed [where now = 400 and others = "\<lambda>q. q" and w = ?w,
        THEN conjunct2, THEN conjunct2, THEN conjunct1] p8
    by blast
  have p10: "Spawn claimed_item
               \<in> set (drop (length (trace ?w)) (trace (run_loop ?ticks ?w)))"
    by (simp add: example_defs model_defs Let_def)
  have p11: "\<exists>before after.
         drop (length (trace ?w)) (trace (run_loop ?ticks ?w))
           = before @ [QueueWrite claimed_item, Spawn claimed_item] @ after"
    using t [THEN conjunct2, THEN conjunct2, THEN conjunct2, rule_format, OF p10]
    by blast
  from claim p2 p3 p4 p5 p6 p7 p8 p9 p10 p11 show ?thesis
    by (intro conjI)
qed

subsection \<open>What the pre-run step returns\<close>

text \<open>
  Claim C10: whenever \<^verbatim>\<open>_apply_pre_run\<close> returns a live action, the call has neither
  changed nor deleted the queue item, and the status of the live action is not
  \<open>policy_delayed\<close> and in neither the completed nor the cancel set; it returns none only on
  the policy-delay and the terminal-drop branch.

  The code tests \<^verbatim>\<open>status is LIVEACTION_STATUS_POLICY_DELAYED\<close>, the identity of two string
  objects, where every other status test of the handler compares by equality. Run on the
  example: the stored live action is \<open>policy_delayed\<close>, the lookup decodes it into an object
  whose status is an equal string but not the constant, no policy changes it, and
  \<^verbatim>\<open>_apply_pre_run\<close> returns it, status \<open>policy_delayed\<close>. The worker then finds it not
  runnable and deletes the queue item, while the live action stays \<open>policy_delayed\<close>.
  What holds on every input is in lemmas \<open>apply_pre_run_Some\<close> and \<open>apply_pre_run_None\<close>:
  the frame, the two status sets, and that a returned status is not the constant object
  itself.
\<close>

theorem apply_pre_run_returns_policy_delayed:
  "get_liveaction_by_id (liveaction_id claimed_item)
     (claimed_world LIVEACTION_STATUS_POLICY_DELAYED)
     = Inr (example_liveaction LIVEACTION_STATUS_POLICY_DELAYED)
   \<and> apply_pre_run example_constants no_policy 2000
         (example_liveaction LIVEACTION_STATUS_POLICY_DELAYED) claimed_item
         (claimed_world LIVEACTION_STATUS_POLICY_DELAYED)
       = (Some (example_liveaction LIVEACTION_STATUS_POLICY_DELAYED), claimed_item,
          (claimed_world LIVEACTION_STATUS_POLICY_DELAYED)
            \<lparr>trace := [LOG (INFO_status_pre_run 7 LIVEACTION_STATUS_POLICY_DELAYED 1)]\<rparr>)
   \<and> status (example_liveaction LIVEACTION_STATUS_POLICY_DELAYED)
       = LIVEACTION_STATUS_POLICY_DELAYED
   \<and> (case handle_execution example_constants no_policy 2000 claimed_item
              (claimed_world LIVEACTION_STATUS_POLICY_DELAYED) of
        (r, w') \<Rightarrow>
          r = Inr () \<and> queue w' = []
        \<and> liveactions w' = [example_document LIVEACTION_STATUS_POLICY_DELAYED]
        \<and> filter (\<lambda>e. \<not> is_LOG e) (trace w') = [QueueDelete claimed_item])"
  by (simp add: example_defs model_defs Let_def)

end
